theory Spec2Isabelle
  imports Complex_Main "HOL-Library.Signed_Division"
begin

section \<open>The smooth-scroll daemon: data model\<close>

text \<open>
  A shallow embedding of the velocity engine of \<^verbatim>\<open>smooth-scroll.c\<close>: the rate
  tracker, the dampening curve, the per-axis decay and emission step, the impulse path
  of the event loop with its force-emit fallback, the clamping of the configuration and
  the rescheduling of the timer.

  Numbers. In the engine a C \<^verbatim>\<open>double\<close> is modelled by a \<^typ>\<open>real\<close>: the arithmetic of
  the model is exact, where the program rounds to the nearest double. The values that
  \<^verbatim>\<open>atof\<close> hands to the clamping of the configuration are modelled with their
  infinities and NaN (\<open>c_double\<close>). A C \<^verbatim>\<open>int\<close>, \<^verbatim>\<open>long\<close> or \<^verbatim>\<open>int64_t\<close> is modelled by
  an \<^typ>\<open>int\<close>. The conversion of a double to \<^verbatim>\<open>int\<close> is undefined in C when the whole
  part does not fit in 32 bits: \<open>int_cast\<close> is specified inside that range only, and
  \<open>emit_defined\<close> says when a step of an axis stays inside it. C's \<^verbatim>\<open>/\<close> and \<^verbatim>\<open>%\<close> on
  integers truncate toward zero; they are \<open>sdiv\<close> and \<open>smod\<close>.

  Output. Every call of \<^verbatim>\<open>write_event\<close> is recorded, in order, in a list of events; the
  result of the write is ignored by every caller in the program and is not modelled.
\<close>

subsection \<open>Constants\<close>

definition HIRES_PER_TICK :: int where
  "HIRES_PER_TICK = 120"

definition RATE_RING_SIZE :: int where
  "RATE_RING_SIZE = 128"

definition RATE_WINDOW_NS :: int where
  "RATE_WINDOW_NS = 300000000"

text \<open>The range of a C \<^verbatim>\<open>int\<close>, of 32 bits on the platforms of the daemon.\<close>

definition INT_MIN :: int where
  "INT_MIN = - 2147483648"

definition INT_MAX :: int where
  "INT_MAX = 2147483647"

definition in_int :: "int \<Rightarrow> bool" where
  "in_int k = (INT_MIN \<le> k \<and> k \<le> INT_MAX)"

subsection \<open>Configuration\<close>

text \<open>
  The fields of \<^verbatim>\<open>struct config\<close> that the engine reads; the device path is left out.
  The type \<open>'d\<close> is the model of \<^verbatim>\<open>double\<close>: \<^typ>\<open>real\<close> in the engine, \<open>c_double\<close> where
  \<^verbatim>\<open>main\<close> clamps what the command line gave. \<open>default_config\<close> holds the defaults
  that \<^verbatim>\<open>main\<close> starts from (\<^verbatim>\<open>DEFAULT_FRICTION\<close> and the others).
\<close>

record 'd config =
  friction :: 'd
  tick_ms :: int
  low_rate :: 'd
  high_rate :: 'd
  min_scale :: 'd
  stop_threshold :: 'd
  multiplier :: 'd
  verbose :: bool

definition default_config :: "real config" where
  "default_config =
     \<lparr>friction = 78 / 1000, tick_ms = 4, low_rate = 5, high_rate = 30,
      min_scale = 3 / 10, stop_threshold = 1 / 2, multiplier = 1 / 2, verbose = False\<rparr>"

text \<open>
  What \<^verbatim>\<open>atof\<close> can return for an option: a finite number, an infinity (for
  \<^verbatim>\<open>inf\<close> or an overflowing literal) or NaN (for \<^verbatim>\<open>nan\<close>). \<open>dless x y\<close> is the C comparison
  \<^verbatim>\<open>x < y\<close> on doubles, false whenever an operand is NaN; \<^verbatim>\<open>x > y\<close> is \<open>dless y x\<close>.
\<close>

datatype c_double = NaN | NegInf | Finite real | PosInf

fun dless :: "c_double \<Rightarrow> c_double \<Rightarrow> bool" where
  "dless NaN y = False"
| "dless x NaN = False"
| "dless x NegInf = False"
| "dless NegInf y = True"
| "dless PosInf y = False"
| "dless (Finite a) PosInf = True"
| "dless (Finite a) (Finite b) = (a < b)"

text \<open>A configuration of finite numbers, as \<^verbatim>\<open>atof\<close> delivers it.\<close>

definition as_parsed :: "real config \<Rightarrow> c_double config" where
  "as_parsed cfg =
     \<lparr>friction = Finite (friction cfg), tick_ms = tick_ms cfg,
      low_rate = Finite (low_rate cfg), high_rate = Finite (high_rate cfg),
      min_scale = Finite (min_scale cfg), stop_threshold = Finite (stop_threshold cfg),
      multiplier = Finite (multiplier cfg), verbose = verbose cfg\<rparr>"

text \<open>
  The block of \<^verbatim>\<open>main\<close> under the comment "Clamp configuration to sane ranges", applied
  to the configuration as the command line left it. The statements run in this order.
\<close>

definition clamp_config :: "c_double config \<Rightarrow> c_double config" where
  "clamp_config cfg0 =
     (let cfg1 = (if dless (friction cfg0) (Finite (1 / 100))
                  then cfg0\<lparr>friction := Finite (1 / 100)\<rparr> else cfg0);
          cfg2 = (if dless (Finite (2 / 10)) (friction cfg1)
                  then cfg1\<lparr>friction := Finite (2 / 10)\<rparr> else cfg1);
          cfg3 = (if tick_ms cfg2 < 1 then cfg2\<lparr>tick_ms := 1\<rparr> else cfg2);
          cfg4 = (if tick_ms cfg3 > 50 then cfg3\<lparr>tick_ms := 50\<rparr> else cfg3);
          cfg5 = (if dless (multiplier cfg4) (Finite (1 / 100))
                  then cfg4\<lparr>multiplier := Finite (1 / 100)\<rparr> else cfg4);
          cfg6 = (if dless (Finite 10) (multiplier cfg5)
                  then cfg5\<lparr>multiplier := Finite 10\<rparr> else cfg5)
      in cfg6)"

subsection \<open>Rate tracker\<close>

record rate_tracker =
  timestamps :: "int list"
  head :: int
  count :: int

definition rate_init :: rate_tracker where
  "rate_init = \<lparr>timestamps = replicate 128 0, head = 0, count = 0\<rparr>"

definition rate_record :: "rate_tracker \<Rightarrow> int \<Rightarrow> rate_tracker" where
  "rate_record rt ts =
     rt\<lparr>timestamps := (timestamps rt)[nat (head rt) := ts],
        head := (head rt + 1) smod RATE_RING_SIZE,
        count := (if count rt < RATE_RING_SIZE then count rt + 1 else count rt)\<rparr>"

text \<open>
  The \<^verbatim>\<open>for\<close> loop of \<^verbatim>\<open>rate_compute\<close>, from index \<open>i\<close> on, with the running values of
  \<^verbatim>\<open>n\<close> and \<^verbatim>\<open>oldest\<close>; it returns their final values.
\<close>

function rate_scan :: "rate_tracker \<Rightarrow> int \<Rightarrow> int \<Rightarrow> int \<Rightarrow> int \<Rightarrow> int \<times> int" where
  "rate_scan rt cutoff i n oldest =
     (if i < count rt then
        (let idx = (head rt - 1 - i + RATE_RING_SIZE) smod RATE_RING_SIZE;
             t = timestamps rt ! nat idx
         in if t \<ge> cutoff
            then rate_scan rt cutoff (i + 1) (n + 1) (if t < oldest then t else oldest)
            else rate_scan rt cutoff (i + 1) n oldest)
      else (n, oldest))"
  by pat_completeness auto
termination
  by (relation "measure (\<lambda>(rt, cutoff, i, n, oldest). nat (count rt - i))") auto

declare rate_scan.simps [simp del]

definition rate_compute :: "rate_tracker \<Rightarrow> int \<Rightarrow> real" where
  "rate_compute rt now =
     (let cutoff = now - RATE_WINDOW_NS;
          (n, oldest) = rate_scan rt cutoff 0 0 now
      in if n < 2 then 0
         else (let window_sec = real_of_int (now - oldest) / 1000000000
               in if window_sec < 1 / 1000000 then 0
                  else real_of_int n / window_sec))"

subsection \<open>Dampening curve\<close>

definition compute_scale :: "real \<Rightarrow> real config \<Rightarrow> real" where
  "compute_scale input_rate cfg =
     (if input_rate \<le> low_rate cfg then 1
      else if input_rate \<ge> high_rate cfg then min_scale cfg
      else (let t = (input_rate - low_rate cfg) / (high_rate cfg - low_rate cfg)
            in 1 - (1 - min_scale cfg) * sqrt t))"

subsection \<open>Axis state and output events\<close>

record axis_state =
  velocity :: real
  emit_accum :: real
  lowres_accum :: int
  rate :: rate_tracker

definition axis_init :: axis_state where
  "axis_init = \<lparr>velocity = 0, emit_accum = 0, lowres_accum = 0, rate = rate_init\<rparr>"

datatype rel_code = REL_WHEEL | REL_HWHEEL | REL_WHEEL_HI_RES | REL_HWHEEL_HI_RES

text \<open>
  What the daemon writes for scrolling: an \<^verbatim>\<open>EV_REL\<close> event of a scroll code with a
  value, or the \<^verbatim>\<open>SYN_REPORT\<close> of \<^verbatim>\<open>write_syn\<close>.
\<close>

datatype event = Rel rel_code int | Syn

text \<open>
  The conversion \<^verbatim>\<open>(int)x\<close> of a double. The fractional part is discarded
  (\<open>whole_part\<close>). When the whole part is outside the range of \<^verbatim>\<open>int\<close> the behaviour of
  the program is undefined, and the model leaves the result unspecified: nothing is
  proved about it.
\<close>

definition whole_part :: "real \<Rightarrow> int" where
  "whole_part x = (if x \<ge> 0 then \<lfloor>x\<rfloor> else \<lceil>x\<rceil>)"

definition int_cast :: "real \<Rightarrow> int" where
  "int_cast x = (if in_int (whole_part x) then whole_part x else undefined)"

text \<open>
  The two \<^verbatim>\<open>while\<close> loops of \<^verbatim>\<open>emit_axis\<close> on \<^verbatim>\<open>lowres_accum\<close>; each returns the
  accumulator it leaves and the events it wrote.
\<close>

function lowres_up :: "rel_code \<Rightarrow> int \<Rightarrow> int \<times> event list" where
  "lowres_up lowres_code acc =
     (if acc \<ge> HIRES_PER_TICK then
        (let (acc', evs) = lowres_up lowres_code (acc - HIRES_PER_TICK)
         in (acc', Rel lowres_code 1 # evs))
      else (acc, []))"
  by pat_completeness auto
termination
  by (relation "measure (\<lambda>(c, acc). nat acc)") (auto simp: HIRES_PER_TICK_def)

function lowres_down :: "rel_code \<Rightarrow> int \<Rightarrow> int \<times> event list" where
  "lowres_down lowres_code acc =
     (if acc \<le> - HIRES_PER_TICK then
        (let (acc', evs) = lowres_down lowres_code (acc + HIRES_PER_TICK)
         in (acc', Rel lowres_code (- 1) # evs))
      else (acc, []))"
  by pat_completeness auto
termination
  by (relation "measure (\<lambda>(c, acc). nat (- acc))") (auto simp: HIRES_PER_TICK_def)

declare lowres_up.simps [simp del] lowres_down.simps [simp del]

subsection \<open>One emission step\<close>

text \<open>The low-res code that \<^verbatim>\<open>emit_axis\<close> pairs with a hi-res code.\<close>

definition lowres_of :: "rel_code \<Rightarrow> rel_code" where
  "lowres_of hires_code = (if hires_code = REL_WHEEL_HI_RES then REL_WHEEL else REL_HWHEEL)"

text \<open>
  \<^verbatim>\<open>emit_axis\<close>: the returned flag, the events written and the axis state left. The file
  descriptor and the label of the debug output are not modelled.
\<close>

definition emit_axis :: "axis_state \<Rightarrow> rel_code \<Rightarrow> real config \<Rightarrow> bool \<times> event list \<times> axis_state" where
  "emit_axis as hires_code cfg =
     (if \<bar>velocity as\<bar> < stop_threshold cfg then
        (False, [], as\<lparr>velocity := 0, emit_accum := 0, lowres_accum := 0\<rparr>)
      else
        (let old_vel = velocity as;
             vel = old_vel * (1 - friction cfg);
             emit = old_vel - vel;
             acc = emit_accum as + emit;
             emit_int = int_cast acc;
             acc' = acc - real_of_int emit_int
         in if emit_int \<noteq> 0 then
              (let lowres_code = lowres_of hires_code;
                   (lr1, evs1) = lowres_up lowres_code (lowres_accum as + emit_int);
                   (lr2, evs2) = lowres_down lowres_code lr1
               in (True, Rel hires_code emit_int # evs1 @ evs2,
                   as\<lparr>velocity := vel, emit_accum := acc', lowres_accum := lr2\<rparr>))
            else (False, [], as\<lparr>velocity := vel, emit_accum := acc'\<rparr>)))"

text \<open>
  The value \<^verbatim>\<open>emit_int\<close> that \<^verbatim>\<open>emit_axis\<close> computes when the axis is not at rest: the
  whole part of the accumulator after the decayed amount is added.
\<close>

definition emit_whole :: "axis_state \<Rightarrow> real config \<Rightarrow> int" where
  "emit_whole as cfg =
     int_cast (emit_accum as + (velocity as - velocity as * (1 - friction cfg)))"

text \<open>
  A call of \<^verbatim>\<open>emit_axis\<close> is defined in C when the axis is at rest, or the conversion is
  inside the range of \<^verbatim>\<open>int\<close> and so is the sum \<^verbatim>\<open>lowres_accum + emit_int\<close>.
\<close>

definition emit_defined :: "axis_state \<Rightarrow> real config \<Rightarrow> bool" where
  "emit_defined as cfg =
     (\<bar>velocity as\<bar> < stop_threshold cfg \<or>
      (in_int (whole_part (emit_accum as + (velocity as - velocity as * (1 - friction cfg)))) \<and>
       in_int (lowres_accum as
                 + whole_part (emit_accum as + (velocity as - velocity as * (1 - friction cfg))))))"


fun mirror_event :: "event \<Rightarrow> event" where
  "mirror_event (Rel c v) = Rel c (- v)"
| "mirror_event Syn = Syn"

subsection \<open>The impulse path of the event loop\<close>

text \<open>
  The fallback of the event loop after the immediate \<^verbatim>\<open>emit_axis\<close>: given the flag
  \<^verbatim>\<open>did_emit\<close> and the axis as \<^verbatim>\<open>emit_axis\<close> left it, the new flag, the events written
  and the axis state. \<open>force_dir\<close> is the value of \<^verbatim>\<open>dir\<close> there.
\<close>

definition force_dir :: "axis_state \<Rightarrow> int" where
  "force_dir as = (if velocity as > 0 then 1 else - 1)"

definition force_emit :: "bool \<Rightarrow> axis_state \<Rightarrow> rel_code \<Rightarrow> real config \<Rightarrow> bool \<times> event list \<times> axis_state" where
  "force_emit did_emit as hc cfg =
     (if \<not> did_emit \<and> \<bar>velocity as\<bar> \<ge> stop_threshold cfg then
        (let dir = force_dir as
         in (True, [Rel hc dir],
             as\<lparr>lowres_accum := lowres_accum as + dir,
                velocity := velocity as - real_of_int dir,
                emit_accum := 0\<rparr>))
      else (did_emit, [], as))"

text \<open>
  The block \<^verbatim>\<open>if (axis) { ... }\<close> for one scroll event, in two parts. First the time
  stamp is recorded, the rate and the scale are computed and the impulse \<open>raw\<close> is added
  to the velocity (\<open>inject\<close>). Then \<^verbatim>\<open>emit_axis\<close> runs at once, then the fallback, and a
  \<^verbatim>\<open>SYN_REPORT\<close> follows when anything was written.
\<close>

definition inject :: "axis_state \<Rightarrow> real \<Rightarrow> int \<Rightarrow> real config \<Rightarrow> axis_state" where
  "inject as raw ts cfg =
     (let rt = rate_record (rate as) ts;
          r = rate_compute rt ts;
          scale = compute_scale r cfg
      in as\<lparr>rate := rt, velocity := velocity as + raw * scale * multiplier cfg\<rparr>)"

definition axis_input :: "axis_state \<Rightarrow> rel_code \<Rightarrow> real \<Rightarrow> int \<Rightarrow> real config \<Rightarrow> event list \<times> axis_state" where
  "axis_input as hc raw ts cfg =
     (let as1 = inject as raw ts cfg;
          (did_emit, evs, as2) = emit_axis as1 hc cfg;
          (did_emit', evs', as3) = force_emit did_emit as2 hc cfg
      in (evs @ evs' @ (if did_emit' then [Syn] else []), as3))"

text \<open>
  The \<^verbatim>\<open>switch\<close> on the code of an intercepted scroll event: the impulse in hi-res units
  and the hi-res code of the axis it belongs to (\<^verbatim>\<open>vert\<close> for the wheel codes, \<^verbatim>\<open>horiz\<close>
  for the others).
\<close>

fun scroll_raw :: "rel_code \<Rightarrow> int \<Rightarrow> real" where
  "scroll_raw REL_WHEEL v = real_of_int v * real_of_int HIRES_PER_TICK"
| "scroll_raw REL_HWHEEL v = real_of_int v * real_of_int HIRES_PER_TICK"
| "scroll_raw REL_WHEEL_HI_RES v = real_of_int v"
| "scroll_raw REL_HWHEEL_HI_RES v = real_of_int v"

fun scroll_axis :: "rel_code \<Rightarrow> rel_code" where
  "scroll_axis REL_WHEEL = REL_WHEEL_HI_RES"
| "scroll_axis REL_HWHEEL = REL_HWHEEL_HI_RES"
| "scroll_axis REL_WHEEL_HI_RES = REL_WHEEL_HI_RES"
| "scroll_axis REL_HWHEEL_HI_RES = REL_HWHEEL_HI_RES"

subsection \<open>Runs of one axis\<close>

text \<open>The axis state that one call of \<^verbatim>\<open>emit_axis\<close> leaves, and \<open>n\<close> such calls in a row.\<close>

definition tick_state :: "axis_state \<Rightarrow> rel_code \<Rightarrow> real config \<Rightarrow> axis_state" where
  "tick_state as hc cfg = snd (snd (emit_axis as hc cfg))"

fun ticks :: "nat \<Rightarrow> axis_state \<Rightarrow> rel_code \<Rightarrow> real config \<Rightarrow> axis_state" where
  "ticks 0 as hc cfg = as"
| "ticks (Suc n) as hc cfg = ticks n (tick_state as hc cfg) hc cfg"

text \<open>
  The states one axis can be in: \<^verbatim>\<open>main\<close> starts it zeroed, and it is changed only by
  the impulse path, on a scroll event of one of its two codes, and by the timer tick.
\<close>

inductive reachable :: "real config \<Rightarrow> rel_code \<Rightarrow> axis_state \<Rightarrow> bool" for cfg :: "real config" and hc :: rel_code where
  reach_init: "reachable cfg hc axis_init"
| reach_input: "reachable cfg hc as \<Longrightarrow> scroll_axis code = hc \<Longrightarrow>
     reachable cfg hc (snd (axis_input as hc (scroll_raw code v) ts cfg))"
| reach_tick: "reachable cfg hc as \<Longrightarrow> reachable cfg hc (tick_state as hc cfg)"

text \<open>
  The steps of one axis in the event loop: a tick of the timer, which calls
  \<^verbatim>\<open>emit_axis\<close>, and a scroll event with its impulse \<open>raw\<close> and its time stamp, which
  runs the impulse path (injection, immediate \<^verbatim>\<open>emit_axis\<close>, fallback). A run collects
  the events of a list of steps.
\<close>

datatype step = Tick | Input real int

fun do_step :: "step \<Rightarrow> axis_state \<Rightarrow> rel_code \<Rightarrow> real config \<Rightarrow> event list \<times> axis_state" where
  "do_step Tick as hc cfg = snd (emit_axis as hc cfg)"
| "do_step (Input raw ts) as hc cfg = axis_input as hc raw ts cfg"

fun run_steps :: "step list \<Rightarrow> axis_state \<Rightarrow> rel_code \<Rightarrow> real config \<Rightarrow> event list \<times> axis_state" where
  "run_steps [] as hc cfg = ([], as)"
| "run_steps (st # sts) as hc cfg =
     (let (evs, as1) = do_step st as hc cfg;
          (evs', as2) = run_steps sts as1 hc cfg
      in (evs @ evs', as2))"

text \<open>
  The velocity that the call of \<^verbatim>\<open>emit_axis\<close> in a step finds: the velocity of the axis
  for a tick, the velocity after the injection for a scroll event. A run has no rest
  reset when it is at or above the stop threshold in every step.
\<close>

fun step_axis :: "step \<Rightarrow> axis_state \<Rightarrow> real config \<Rightarrow> axis_state" where
  "step_axis Tick as cfg = as"
| "step_axis (Input raw ts) as cfg = inject as raw ts cfg"

fun no_reset :: "step list \<Rightarrow> axis_state \<Rightarrow> rel_code \<Rightarrow> real config \<Rightarrow> bool" where
  "no_reset [] as hc cfg = True"
| "no_reset (st # sts) as hc cfg =
     (stop_threshold cfg \<le> \<bar>velocity (step_axis st as cfg)\<bar> \<and>
      no_reset sts (snd (do_step st as hc cfg)) hc cfg)"

text \<open>
  A run is defined in C when the call of \<^verbatim>\<open>emit_axis\<close> in every step is, and the carry
  that every step leaves is inside the range of \<^verbatim>\<open>int\<close> (the fallback adds its unit to
  \<^verbatim>\<open>lowres_accum\<close>).
\<close>

fun run_defined :: "step list \<Rightarrow> axis_state \<Rightarrow> rel_code \<Rightarrow> real config \<Rightarrow> bool" where
  "run_defined [] as hc cfg = True"
| "run_defined (st # sts) as hc cfg =
     (emit_defined (step_axis st as cfg) cfg \<and>
      in_int (lowres_accum (snd (do_step st as hc cfg))) \<and>
      run_defined sts (snd (do_step st as hc cfg)) hc cfg)"

text \<open>The sums of the values written with one code in a list of events.\<close>

fun sum_code :: "rel_code \<Rightarrow> event list \<Rightarrow> int" where
  "sum_code c [] = 0"
| "sum_code c (Rel c' v # evs) = (if c' = c then v else 0) + sum_code c evs"
| "sum_code c (Syn # evs) = sum_code c evs"

subsection \<open>The rate the specification describes\<close>

text \<open>
  The time stamps a tracker retains, most recent first, as the loop of \<^verbatim>\<open>rate_compute\<close>
  visits them; those of them inside the trailing window of \<open>now\<close>; and the time from
  the oldest of these to \<open>now\<close>, in seconds.
\<close>

definition retained :: "rate_tracker \<Rightarrow> int list" where
  "retained rt =
     map (\<lambda>i. timestamps rt ! nat ((head rt - 1 - int i + RATE_RING_SIZE) smod RATE_RING_SIZE))
       [0..<nat (count rt)]"

definition in_window :: "rate_tracker \<Rightarrow> int \<Rightarrow> int list" where
  "in_window rt now = filter (\<lambda>t. now - RATE_WINDOW_NS \<le> t) (retained rt)"

definition window_seconds :: "rate_tracker \<Rightarrow> int \<Rightarrow> real" where
  "window_seconds rt now = real_of_int (now - fold min (in_window rt now) now) / 1000000000"

text \<open>
  The rate in the words of the specification: the number of time stamps in the window
  divided by the seconds from the oldest of them to \<open>now\<close>, and 0 when fewer than two
  are in the window.
\<close>

definition rate_spec :: "rate_tracker \<Rightarrow> int \<Rightarrow> real" where
  "rate_spec rt now =
     (if length (in_window rt now) < 2 then 0
      else real (length (in_window rt now)) / window_seconds rt now)"

text \<open>The tracker after the time stamps of a list were recorded in order, from the zeroed tracker.\<close>

definition record_all :: "int list \<Rightarrow> rate_tracker" where
  "record_all tss = foldl rate_record rate_init tss"

subsection \<open>The timer\<close>

text \<open>
  The scheduler keeps the absolute time of the next tick, \<^verbatim>\<open>next_tick_ns\<close>; \<open>armed\<close> is
  the \<^verbatim>\<open>it_value\<close> (seconds, nanoseconds) last passed to \<^verbatim>\<open>timerfd_settime\<close> with
  \<^verbatim>\<open>TFD_TIMER_ABSTIME\<close>.
\<close>

record sched_state =
  vert :: axis_state
  horiz :: axis_state
  next_tick_ns :: int
  armed :: "int \<times> int"

definition tick_ns :: "real config \<Rightarrow> int" where
  "tick_ns cfg = tick_ms cfg * 1000000"

definition arm :: "int \<Rightarrow> int \<times> int" where
  "arm t = (t sdiv 1000000000, t smod 1000000000)"

text \<open>The first arming in \<^verbatim>\<open>main\<close>, at clock reading \<open>now\<close> (in nanoseconds).\<close>

definition sched_init :: "real config \<Rightarrow> int \<Rightarrow> sched_state" where
  "sched_init cfg now =
     (let next = now + tick_ns cfg
      in \<lparr>vert = axis_init, horiz = axis_init, next_tick_ns = next, armed = arm next\<rparr>)"

text \<open>
  The read of the timer descriptor: it succeeds, or fails with \<^verbatim>\<open>EAGAIN\<close>, or fails with
  another error, and only then the branch is left before rescheduling.
\<close>

datatype timer_read = Expired | Again | Failed

text \<open>
  The timer branch of the event loop. \<open>wake\<close> is the clock at the moment the loop
  handles the expiry; the branch never reads the clock, so \<open>wake\<close> is not used.
\<close>

definition timer_tick :: "sched_state \<Rightarrow> int \<Rightarrow> timer_read \<Rightarrow> real config \<Rightarrow> event list \<times> sched_state" where
  "timer_tick s wake rd cfg =
     (if rd = Failed then ([], s)
      else
        (let next = next_tick_ns s + tick_ns cfg;
             (e1, evs1, v) = emit_axis (vert s) REL_WHEEL_HI_RES cfg;
             (e2, evs2, h) = emit_axis (horiz s) REL_HWHEEL_HI_RES cfg
         in (evs1 @ evs2 @ (if e1 \<or> e2 then [Syn] else []),
             s\<lparr>next_tick_ns := next, armed := arm next, vert := v, horiz := h\<rparr>)))"

text \<open>
  The scheduler after a series of wake-ups for the timer, each with the time at which
  the loop handled it and the outcome of the read.
\<close>

fun run_timer :: "sched_state \<Rightarrow> (int \<times> timer_read) list \<Rightarrow> real config \<Rightarrow> sched_state" where
  "run_timer s [] cfg = s"
| "run_timer s ((wake, rd) # wakes) cfg = run_timer (snd (timer_tick s wake rd cfg)) wakes cfg"

definition rescheduled :: "(int \<times> timer_read) list \<Rightarrow> int" where
  "rescheduled wakes = int (length (filter (\<lambda>w. snd w \<noteq> Failed) wakes))"

subsection \<open>Inputs of the examples\<close>

text \<open>
  The default configuration with friction 1/8 and multiplier 7/4. Both values are inside
  the ranges the clamping leaves unchanged, and every number of the examples computed
  with them is a binary fraction, so the doubles of the program hold the same values.
  \<open>example_axis\<close> is the vertical axis after the first scroll event, of hi-res value 1, at
  time 0.
\<close>

definition example_config :: "real config" where
  "example_config = default_config\<lparr>friction := 1 / 8, multiplier := 7 / 4\<rparr>"

definition example_axis :: axis_state where
  "example_axis =
     snd (axis_input axis_init REL_WHEEL_HI_RES (scroll_raw REL_WHEEL_HI_RES 1) 0 example_config)"

section \<open>Basic facts\<close>

subsection \<open>Evaluating the model\<close>

lemma rate_scan_stop: "count rt \<le> i \<Longrightarrow> rate_scan rt c i n ol = (n, ol)"
  by (subst rate_scan.simps) simp

lemma rate_scan_step:
  "i < count rt \<Longrightarrow>
   rate_scan rt c i n ol =
     (if timestamps rt ! nat ((head rt - 1 - i + RATE_RING_SIZE) smod RATE_RING_SIZE) \<ge> c
      then rate_scan rt c (i + 1) (n + 1)
             (min (timestamps rt ! nat ((head rt - 1 - i + RATE_RING_SIZE) smod RATE_RING_SIZE)) ol)
      else rate_scan rt c (i + 1) n ol)"
  by (subst rate_scan.simps) (simp add: Let_def min_def)

lemma smod_nonneg: "0 \<le> a \<Longrightarrow> 0 < b \<Longrightarrow> a smod b = a mod (b::int)"
  by (simp add: signed_modulo_int_def sgn_if)

lemma rate_first: "rate_compute (rate_record rate_init ts) ts = 0"
  by (simp add: rate_compute_def rate_record_def rate_init_def rate_scan_step rate_scan_stop
      RATE_RING_SIZE_def RATE_WINDOW_NS_def smod_nonneg Let_def)

lemma example_config_simps:
  "friction example_config = 1 / 8" "multiplier example_config = 7 / 4"
  "stop_threshold example_config = 1 / 2" "low_rate example_config = 5"
  "high_rate example_config = 30" "min_scale example_config = 3 / 10"
  by (simp_all add: example_config_def default_config_def)

lemma inject_first:
  "0 \<le> low_rate cfg \<Longrightarrow>
   inject axis_init raw ts cfg = axis_init\<lparr>rate := rate_record rate_init ts, velocity := raw * multiplier cfg\<rparr>"
  by (simp add: inject_def axis_init_def rate_first compute_scale_def)

lemma emit_axis_rest:
  "\<bar>velocity as\<bar> < stop_threshold cfg \<Longrightarrow>
   emit_axis as hc cfg = (False, [], as\<lparr>velocity := 0, emit_accum := 0, lowres_accum := 0\<rparr>)"
  by (simp add: emit_axis_def)

lemma emit_axis_quiet:
  "stop_threshold cfg \<le> \<bar>velocity as\<bar> \<Longrightarrow> emit_whole as cfg = 0 \<Longrightarrow>
   emit_axis as hc cfg =
     (False, [], as\<lparr>velocity := velocity as * (1 - friction cfg),
                      emit_accum := emit_accum as + (velocity as - velocity as * (1 - friction cfg))\<rparr>)"
  by (simp add: emit_axis_def emit_whole_def Let_def)

lemmas int_cast_eval = int_cast_def whole_part_def in_int_def INT_MIN_def INT_MAX_def

lemma whole_part_small: "\<bar>x\<bar> < 1 \<Longrightarrow> whole_part x = 0"
  by (auto simp: whole_part_def floor_eq_iff ceiling_eq_iff)

lemma int_cast_small: "\<bar>x\<bar> < 1 \<Longrightarrow> int_cast x = 0"
  by (simp add: int_cast_def whole_part_small in_int_def INT_MIN_def INT_MAX_def)

lemma example_axis_eq:
  "example_axis = axis_init\<lparr>rate := rate_record rate_init 0, velocity := 17 / 32, lowres_accum := 1\<rparr>"
proof -
  let ?a1 = "axis_init\<lparr>rate := rate_record rate_init 0, velocity := 7 / 4\<rparr>"
  have a1: "inject axis_init (scroll_raw REL_WHEEL_HI_RES 1) 0 example_config = ?a1"
    by (simp add: inject_first example_config_simps)
  have w: "emit_whole ?a1 example_config = 0"
    by (simp add: emit_whole_def example_config_simps axis_init_def int_cast_small)
  have e: "emit_axis ?a1 REL_WHEEL_HI_RES example_config =
      (False, [], ?a1\<lparr>velocity := 49 / 32, emit_accum := 7 / 32\<rparr>)"
    by (subst emit_axis_quiet) (simp_all add: w, simp_all add: example_config_simps axis_init_def)
  show ?thesis
    unfolding example_axis_def axis_input_def a1 Let_def e
    by (simp add: force_emit_def force_dir_def example_config_simps axis_init_def)
qed

lemma dless_Finite_left:
  "dless x (Finite b) = (case x of NaN \<Rightarrow> False | NegInf \<Rightarrow> True | Finite a \<Rightarrow> a < b | PosInf \<Rightarrow> False)"
  by (cases x) simp_all

lemma dless_Finite_right:
  "dless (Finite a) y = (case y of NaN \<Rightarrow> False | NegInf \<Rightarrow> False | Finite b \<Rightarrow> a < b | PosInf \<Rightarrow> True)"
  by (cases y) simp_all

lemma clamp_friction:
  "friction (clamp_config cfg) =
     (case friction cfg of NaN \<Rightarrow> NaN | NegInf \<Rightarrow> Finite (1 / 100)
      | Finite x \<Rightarrow> Finite (min (2 / 10) (max (1 / 100) x)) | PosInf \<Rightarrow> Finite (2 / 10))"
  unfolding clamp_config_def Let_def
  by (cases "friction cfg") (simp_all add: min_def max_def)

lemma clamp_multiplier:
  "multiplier (clamp_config cfg) =
     (case multiplier cfg of NaN \<Rightarrow> NaN | NegInf \<Rightarrow> Finite (1 / 100)
      | Finite x \<Rightarrow> Finite (min 10 (max (1 / 100) x)) | PosInf \<Rightarrow> Finite 10)"
  unfolding clamp_config_def Let_def
  by (cases "multiplier cfg") (simp_all add: min_def max_def)

lemma clamp_fields:
  "tick_ms (clamp_config cfg) = min 50 (max 1 (tick_ms cfg))"
  "low_rate (clamp_config cfg) = low_rate cfg"
  "high_rate (clamp_config cfg) = high_rate cfg"
  "min_scale (clamp_config cfg) = min_scale cfg"
  "stop_threshold (clamp_config cfg) = stop_threshold cfg"
  "verbose (clamp_config cfg) = verbose cfg"
  unfolding clamp_config_def Let_def by (simp_all add: min_def max_def)

lemma tick_state_rest:
  "\<bar>velocity as\<bar> < stop_threshold cfg \<Longrightarrow>
   tick_state as hc cfg = as\<lparr>velocity := 0, emit_accum := 0, lowres_accum := 0\<rparr>"
  by (simp add: tick_state_def emit_axis_rest)

lemma tick_state_quiet:
  "stop_threshold cfg \<le> \<bar>velocity as\<bar> \<Longrightarrow> emit_whole as cfg = 0 \<Longrightarrow>
   tick_state as hc cfg =
     as\<lparr>velocity := velocity as * (1 - friction cfg),
        emit_accum := emit_accum as + (velocity as - velocity as * (1 - friction cfg))\<rparr>"
  by (simp add: tick_state_def emit_axis_quiet)

lemma example_tick:
  "tick_state example_axis REL_WHEEL_HI_RES example_config =
     example_axis\<lparr>velocity := 119 / 256, emit_accum := 17 / 256\<rparr>"
  by (subst tick_state_quiet)
    (simp_all add: example_axis_eq example_config_simps axis_init_def emit_whole_def int_cast_small)

lemma example_reachable: "reachable example_config REL_WHEEL_HI_RES example_axis"
  unfolding example_axis_def by (rule reach_input [OF reach_init]) simp

section \<open>The rest invariant (C1)\<close>

text \<open>
  C1, as the specification states it: in every reachable state of an axis, if the
  velocity is below the stop threshold in magnitude after a tick, then \<open>emit_accum\<close> and
  \<open>lowres_accum\<close> are 0. This fails. \<^verbatim>\<open>emit_axis\<close> tests the velocity it finds, not the one
  it leaves: the tick that takes the velocity below the threshold still adds to
  \<open>emit_accum\<close> and leaves \<open>lowres_accum\<close> alone. After the first scroll event of the
  example (velocity 17/32, carry 1) one tick leaves velocity 119/256, below the
  threshold 1/2, with \<open>emit_accum\<close> 17/256 and \<open>lowres_accum\<close> 1.
\<close>

theorem rest_invariant_counterexample:
  "reachable example_config REL_WHEEL_HI_RES example_axis \<and>
   \<bar>velocity (tick_state example_axis REL_WHEEL_HI_RES example_config)\<bar> < stop_threshold example_config \<and>
   emit_accum (tick_state example_axis REL_WHEEL_HI_RES example_config) = 17 / 256 \<and>
   lowres_accum (tick_state example_axis REL_WHEEL_HI_RES example_config) = 1"
  using example_reachable
  by (simp add: example_tick example_config_simps) (simp add: example_axis_eq)

text \<open>
  C1, amended: if the velocity is below the stop threshold in magnitude when a tick
  begins, that tick writes nothing and leaves the velocity, \<open>emit_accum\<close> and
  \<open>lowres_accum\<close> at 0. So a velocity that is below the threshold after one tick is
  followed by a state at rest after the next tick. This holds in every state, reachable
  or not.
\<close>

theorem rest_after_low_velocity:
  assumes "\<bar>velocity as\<bar> < stop_threshold cfg"
  shows "emit_axis as hc cfg = (False, [], tick_state as hc cfg) \<and>
         velocity (tick_state as hc cfg) = 0 \<and>
         emit_accum (tick_state as hc cfg) = 0 \<and>
         lowres_accum (tick_state as hc cfg) = 0"
  using assms by (simp add: tick_state_rest emit_axis_rest)

text \<open>The example again: the second tick finds the velocity 119/256 and resets the axis.\<close>

theorem rest_after_low_velocity_witness:
  "\<bar>velocity (tick_state example_axis REL_WHEEL_HI_RES example_config)\<bar> < stop_threshold example_config \<and>
   velocity (ticks 2 example_axis REL_WHEEL_HI_RES example_config) = 0 \<and>
   emit_accum (ticks 2 example_axis REL_WHEEL_HI_RES example_config) = 0 \<and>
   lowres_accum (ticks 2 example_axis REL_WHEEL_HI_RES example_config) = 0"
proof -
  have low: "\<bar>velocity (tick_state example_axis REL_WHEEL_HI_RES example_config)\<bar>
      < stop_threshold example_config"
    by (simp add: example_tick example_config_simps)
  have two: "ticks 2 example_axis REL_WHEEL_HI_RES example_config =
      tick_state (tick_state example_axis REL_WHEEL_HI_RES example_config) REL_WHEEL_HI_RES example_config"
    by (simp add: numeral_2_eq_2)
  show ?thesis
    using low rest_after_low_velocity [OF low, of REL_WHEEL_HI_RES] by (simp add: two)
qed

section \<open>Clamping of the configuration (C2)\<close>

text \<open>
  C2, as the specification states it: before the scheduler starts every parameter is
  clamped to its range, among them \<open>min_scale\<close> to (0, 1], \<open>stop_threshold\<close> to positive
  values and the rates to \<open>low_rate < high_rate\<close>. This fails: \<^verbatim>\<open>main\<close> clamps the
  friction, the tick interval and the multiplier and nothing else, and its comparisons
  let a NaN through. With
  \<^verbatim>\<open>-f nan -m nan --low-rate 30 --high-rate 5 --min-scale 5 --stop-threshold -1\<close> the six
  values reach the scheduler as given.
\<close>

theorem clamp_config_unvalidated:
  "friction (clamp_config ((as_parsed default_config)\<lparr>friction := NaN, multiplier := NaN,
      low_rate := Finite 30, high_rate := Finite 5, min_scale := Finite 5,
      stop_threshold := Finite (- 1)\<rparr>)) = NaN \<and>
   multiplier (clamp_config ((as_parsed default_config)\<lparr>friction := NaN, multiplier := NaN,
      low_rate := Finite 30, high_rate := Finite 5, min_scale := Finite 5,
      stop_threshold := Finite (- 1)\<rparr>)) = NaN \<and>
   min_scale (clamp_config ((as_parsed default_config)\<lparr>friction := NaN, multiplier := NaN,
      low_rate := Finite 30, high_rate := Finite 5, min_scale := Finite 5,
      stop_threshold := Finite (- 1)\<rparr>)) = Finite 5 \<and>
   stop_threshold (clamp_config ((as_parsed default_config)\<lparr>friction := NaN, multiplier := NaN,
      low_rate := Finite 30, high_rate := Finite 5, min_scale := Finite 5,
      stop_threshold := Finite (- 1)\<rparr>)) = Finite (- 1) \<and>
   low_rate (clamp_config ((as_parsed default_config)\<lparr>friction := NaN, multiplier := NaN,
      low_rate := Finite 30, high_rate := Finite 5, min_scale := Finite 5,
      stop_threshold := Finite (- 1)\<rparr>)) = Finite 30 \<and>
   high_rate (clamp_config ((as_parsed default_config)\<lparr>friction := NaN, multiplier := NaN,
      low_rate := Finite 30, high_rate := Finite 5, min_scale := Finite 5,
      stop_threshold := Finite (- 1)\<rparr>)) = Finite 5"
  by (simp add: clamp_fields clamp_friction clamp_multiplier)

text \<open>
  C2, amended: a friction and a multiplier that are numbers, finite or infinite, are
  clamped to [0.01, 0.2] and to [0.01, 10], each bound included, and a value inside its
  range is kept; a NaN passes both comparisons and stays NaN. The tick interval is
  clamped to [1, 50] milliseconds. \<open>low_rate\<close>, \<open>high_rate\<close>, \<open>min_scale\<close> and
  \<open>stop_threshold\<close> are not validated and stay as given. No value is rejected: the
  clamping returns a configuration for every input.
\<close>

theorem clamp_config_ranges:
  "friction (clamp_config cfg) =
     (case friction cfg of NaN \<Rightarrow> NaN | NegInf \<Rightarrow> Finite (1 / 100)
      | Finite x \<Rightarrow> Finite (min (2 / 10) (max (1 / 100) x)) | PosInf \<Rightarrow> Finite (2 / 10)) \<and>
   tick_ms (clamp_config cfg) = min 50 (max 1 (tick_ms cfg)) \<and>
   multiplier (clamp_config cfg) =
     (case multiplier cfg of NaN \<Rightarrow> NaN | NegInf \<Rightarrow> Finite (1 / 100)
      | Finite x \<Rightarrow> Finite (min 10 (max (1 / 100) x)) | PosInf \<Rightarrow> Finite 10) \<and>
   low_rate (clamp_config cfg) = low_rate cfg \<and>
   high_rate (clamp_config cfg) = high_rate cfg \<and>
   min_scale (clamp_config cfg) = min_scale cfg \<and>
   stop_threshold (clamp_config cfg) = stop_threshold cfg"
  by (intro conjI clamp_fields clamp_friction clamp_multiplier)

section \<open>The dampening curve (C3)\<close>

lemma default_config_simps:
  "friction default_config = 78 / 1000" "multiplier default_config = 1 / 2"
  "stop_threshold default_config = 1 / 2" "low_rate default_config = 5"
  "high_rate default_config = 30" "min_scale default_config = 3 / 10"
  "tick_ms default_config = 4"
  by (simp_all add: default_config_def)

text \<open>
  With \<open>low_rate < high_rate\<close> the three branches of \<^verbatim>\<open>compute_scale\<close> are one formula:
  the position in the band, cut off at 0 and at 1, under the square root.
\<close>

lemma compute_scale_band:
  assumes "low_rate cfg < high_rate cfg"
  shows "compute_scale r cfg = 1 - (1 - min_scale cfg) * sqrt (max 0 (min 1 ((r - low_rate cfg) / (high_rate cfg - low_rate cfg))))"
proof -
  let ?d = "high_rate cfg - low_rate cfg"
  have d: "0 < ?d" using assms by simp
  consider "r \<le> low_rate cfg" | "high_rate cfg \<le> r" | "low_rate cfg < r" "r < high_rate cfg"
    by linarith
  then show ?thesis
  proof cases
    case 1
    then have "(r - low_rate cfg) / ?d \<le> 0"
      using d by (simp add: divide_le_0_iff)
    then have "max 0 (min 1 ((r - low_rate cfg) / ?d)) = 0" by simp
    then show ?thesis using 1 by (simp add: compute_scale_def)
  next
    case 2
    then have "1 \<le> (r - low_rate cfg) / ?d"
      using d by (simp add: le_divide_eq)
    then have "max 0 (min 1 ((r - low_rate cfg) / ?d)) = 1" by simp
    then show ?thesis using 2 assms by (simp add: compute_scale_def)
  next
    case 3
    then have "0 \<le> (r - low_rate cfg) / ?d" "(r - low_rate cfg) / ?d \<le> 1"
      using d by (simp_all add: divide_le_eq)
    then have "max 0 (min 1 ((r - low_rate cfg) / ?d)) = (r - low_rate cfg) / ?d" by simp
    then show ?thesis using 3 by (simp add: compute_scale_def Let_def)
  qed
qed

lemma compute_scale_continuous:
  assumes "low_rate cfg < high_rate cfg"
  shows "continuous_on UNIV (\<lambda>r. compute_scale r cfg)"
proof -
  have "continuous_on UNIV (\<lambda>r. 1 - (1 - min_scale cfg) * sqrt (max 0 (min 1 ((r - low_rate cfg) / (high_rate cfg - low_rate cfg)))))"
    using assms by (intro continuous_intros) simp
  then show ?thesis
    by (simp add: compute_scale_band [OF assms])
qed

lemma compute_scale_antimono:
  assumes "low_rate cfg < high_rate cfg" "min_scale cfg \<le> 1" "r \<le> s"
  shows "compute_scale s cfg \<le> compute_scale r cfg"
proof -
  let ?d = "high_rate cfg - low_rate cfg"
  have d: "0 < ?d" using assms by simp
  have "(r - low_rate cfg) / ?d \<le> (s - low_rate cfg) / ?d"
    using d assms(3) by (simp add: divide_right_mono)
  then have "max 0 (min 1 ((r - low_rate cfg) / ?d)) \<le> max 0 (min 1 ((s - low_rate cfg) / ?d))"
    by (simp add: max_def min_def)
  then have "sqrt (max 0 (min 1 ((r - low_rate cfg) / ?d))) \<le> sqrt (max 0 (min 1 ((s - low_rate cfg) / ?d)))"
    by simp
  then have "(1 - min_scale cfg) * sqrt (max 0 (min 1 ((r - low_rate cfg) / ?d)))
      \<le> (1 - min_scale cfg) * sqrt (max 0 (min 1 ((s - low_rate cfg) / ?d)))"
    using assms(2) by (simp add: mult_left_mono)
  then show ?thesis
    by (simp add: compute_scale_band [OF assms(1)])
qed

lemma compute_scale_range:
  assumes "low_rate cfg < high_rate cfg" "min_scale cfg \<le> 1"
  shows "min_scale cfg \<le> compute_scale r cfg \<and> compute_scale r cfg \<le> 1"
proof -
  let ?t = "max 0 (min 1 ((r - low_rate cfg) / (high_rate cfg - low_rate cfg)))"
  have t: "0 \<le> sqrt ?t" "sqrt ?t \<le> 1"
    by (simp_all add: real_sqrt_le_1_iff)
  have "(1 - min_scale cfg) * sqrt ?t \<le> (1 - min_scale cfg) * 1"
    using assms(2) t(2) by (intro mult_left_mono) simp_all
  moreover have "0 \<le> (1 - min_scale cfg) * sqrt ?t"
    using assms(2) t(1) by simp
  ultimately show ?thesis
    by (simp add: compute_scale_band [OF assms(1)])
qed

text \<open>
  C3: for every configuration with \<open>low_rate < high_rate\<close> and \<open>min_scale \<le> 1\<close> (the
  bound \<open>0 < min_scale\<close> is not needed), the scale is 1 at and below
  \<open>low_rate\<close>, is \<open>min_scale\<close> at and above \<open>high_rate\<close>, follows the square-root
  interpolation strictly between them, lies in \<open>[min_scale, 1]\<close>, and is a continuous
  and non-increasing function of the rate, on the whole line and so across the band and
  at its two ends.
\<close>

theorem compute_scale_curve:
  assumes "low_rate cfg < high_rate cfg" and "min_scale cfg \<le> 1"
  shows "(\<forall>r. r \<le> low_rate cfg \<longrightarrow> compute_scale r cfg = 1) \<and>
         (\<forall>r. high_rate cfg \<le> r \<longrightarrow> compute_scale r cfg = min_scale cfg) \<and>
         (\<forall>r. low_rate cfg < r \<and> r < high_rate cfg \<longrightarrow>
            compute_scale r cfg =
              1 - (1 - min_scale cfg) * sqrt ((r - low_rate cfg) / (high_rate cfg - low_rate cfg))) \<and>
         (\<forall>r. min_scale cfg \<le> compute_scale r cfg \<and> compute_scale r cfg \<le> 1) \<and>
         continuous_on UNIV (\<lambda>r. compute_scale r cfg) \<and>
         (\<forall>r s. r \<le> s \<longrightarrow> compute_scale s cfg \<le> compute_scale r cfg)"
proof (intro conjI allI impI)
  fix r
  show "compute_scale r cfg = 1" if "r \<le> low_rate cfg"
    using that by (simp add: compute_scale_def)
  show "compute_scale r cfg = min_scale cfg" if "high_rate cfg \<le> r"
    using that assms(1) by (simp add: compute_scale_def)
  show "compute_scale r cfg =
      1 - (1 - min_scale cfg) * sqrt ((r - low_rate cfg) / (high_rate cfg - low_rate cfg))"
    if "low_rate cfg < r \<and> r < high_rate cfg"
    using that by (simp add: compute_scale_def)
  show "min_scale cfg \<le> compute_scale r cfg" and "compute_scale r cfg \<le> 1"
    using compute_scale_range [OF assms] by simp_all
  show "continuous_on UNIV (\<lambda>r. compute_scale r cfg)"
    by (rule compute_scale_continuous [OF assms(1)])
  fix s
  show "compute_scale s cfg \<le> compute_scale r cfg" if "r \<le> s"
    using that by (rule compute_scale_antimono [OF assms])
qed

text \<open>The default configuration: the band from 5 to 30 events per second, floor 0.3.\<close>

theorem compute_scale_curve_witness:
  "low_rate default_config < high_rate default_config \<and> min_scale default_config \<le> 1 \<and>
   compute_scale 5 default_config = 1 \<and>
   compute_scale 30 default_config = 3 / 10 \<and>
   compute_scale (45 / 4) default_config = 13 / 20 \<and>
   continuous_on UNIV (\<lambda>r. compute_scale r default_config) \<and>
   compute_scale 30 default_config \<le> compute_scale (45 / 4) default_config"
proof -
  have h: "low_rate default_config < high_rate default_config" "min_scale default_config \<le> 1"
    by (simp_all add: default_config_simps)
  have s: "sqrt (1 / 4) = 1 / 2"
    by (simp add: real_sqrt_divide)
  from compute_scale_curve [OF h] have
    a: "\<forall>r. r \<le> low_rate default_config \<longrightarrow> compute_scale r default_config = 1" and
    b: "\<forall>r. high_rate default_config \<le> r \<longrightarrow> compute_scale r default_config = min_scale default_config" and
    c: "\<forall>r. low_rate default_config < r \<and> r < high_rate default_config \<longrightarrow>
            compute_scale r default_config =
              1 - (1 - min_scale default_config) * sqrt ((r - low_rate default_config) / (high_rate default_config - low_rate default_config))" and
    d: "continuous_on UNIV (\<lambda>r. compute_scale r default_config)" and
    e: "\<forall>r s. r \<le> s \<longrightarrow> compute_scale s default_config \<le> compute_scale r default_config"
    by blast+
  have "compute_scale 5 default_config = 1"
    using a [rule_format, of 5] by (simp add: default_config_simps)
  moreover have "compute_scale 30 default_config = 3 / 10"
    using b [rule_format, of 30] by (simp add: default_config_simps)
  moreover have "compute_scale (45 / 4) default_config = 13 / 20"
    using c [rule_format, of "45 / 4"] by (simp add: default_config_simps s)
  moreover have "compute_scale 30 default_config \<le> compute_scale (45 / 4) default_config"
    using e [rule_format, of "45 / 4" 30] by simp
  ultimately show ?thesis
    using h d by simp
qed

section \<open>The emission step\<close>

subsection \<open>The low-res loops in closed form\<close>

lemma lowres_up_eq:
  "lowres_up c t = (if t < 120 then (t, []) else (t mod 120, replicate (nat (t div 120)) (Rel c 1)))"
proof (induction c t rule: lowres_up.induct)
  case (1 c t)
  show ?case
  proof (cases "t \<ge> 120")
    case False
    then show ?thesis by (subst lowres_up.simps) (simp add: HIRES_PER_TICK_def)
  next
    case True
    have ih: "lowres_up c (t - 120) =
        (if t - 120 < 120 then (t - 120, [])
         else ((t - 120) mod 120, replicate (nat ((t - 120) div 120)) (Rel c 1)))"
      using 1 True by (simp add: HIRES_PER_TICK_def)
    have m: "(t - 120) mod 120 = t mod 120"
      by (metis minus_mod_self2)
    have d: "(t - 120) div 120 = t div 120 - 1"
      by (simp add: div_diff)
    show ?thesis
    proof (cases "t - 120 < 120")
      case small: True
      with True have "t div 120 = 1" "t mod 120 = t - 120"
        by presburger+
      with True small ih show ?thesis
        by (subst lowres_up.simps) (simp add: HIRES_PER_TICK_def)
    next
      case big: False
      then have "2 \<le> t div 120" by presburger
      then have "Suc (nat (t div 120 - 1)) = nat (t div 120)" by simp
      then have "Rel c 1 # replicate (nat (t div 120 - 1)) (Rel c 1) = replicate (nat (t div 120)) (Rel c 1)"
        by (metis replicate_Suc)
      with True big ih m d show ?thesis
        by (subst lowres_up.simps) (simp add: HIRES_PER_TICK_def)
    qed
  qed
qed

lemma lowres_down_mirror:
  "lowres_down c t = (case lowres_up c (- t) of (a, evs) \<Rightarrow> (- a, map mirror_event evs))"
proof (induction c t rule: lowres_down.induct)
  case (1 c t)
  show ?case
  proof (cases "t \<le> - HIRES_PER_TICK")
    case False
    then show ?thesis
      by (subst lowres_down.simps, subst lowres_up.simps) simp
  next
    case True
    have e: "- (t + HIRES_PER_TICK) = - t - HIRES_PER_TICK" by simp
    from 1 [OF True] have ih: "lowres_down c (t + HIRES_PER_TICK) =
        (case lowres_up c (- t - HIRES_PER_TICK) of (a, evs) \<Rightarrow> (- a, map mirror_event evs))"
      unfolding e .
    from True have up: "HIRES_PER_TICK \<le> - t" by simp
    show ?thesis
      by (subst lowres_down.simps, subst lowres_up.simps)
        (simp only: True up if_True ih Let_def split: prod.split, simp)
  qed
qed

lemma lowres_down_eq:
  "lowres_down c t =
     (if - 120 < t then (t, []) else (- ((- t) mod 120), replicate (nat ((- t) div 120)) (Rel c (- 1))))"
  by (simp add: lowres_down_mirror lowres_up_eq)

lemma lowres_both:
  "(case lowres_up c t of (lr1, evs1) \<Rightarrow>
      case lowres_down c lr1 of (lr2, evs2) \<Rightarrow> (lr2, evs1 @ evs2)) =
   (t smod 120, replicate (nat (\<bar>t\<bar> div 120)) (Rel c (sgn t)))"
proof -
  consider "120 \<le> t" | "t \<le> - 120" | "- 120 < t" "t < 120" by linarith
  then show ?thesis
  proof cases
    case 1
    then have "0 \<le> t mod 120" "t mod 120 < 120" by simp_all
    with 1 show ?thesis
      by (simp add: lowres_up_eq lowres_down_eq signed_modulo_int_def)
  next
    case 2
    then show ?thesis
      by (simp add: lowres_up_eq lowres_down_eq signed_modulo_int_def)
  next
    case 3
    then have "\<bar>t\<bar> div 120 = 0" "\<bar>t\<bar> mod 120 = \<bar>t\<bar>" by simp_all
    with 3 show ?thesis
      by (simp add: lowres_up_eq lowres_down_eq signed_modulo_int_def sgn_if)
  qed
qed

subsection \<open>The conversion to \<^verbatim>\<open>int\<close>\<close>





subsection \<open>The step in closed form, and its mirror image\<close>

lemma emit_axis_move:
  assumes "stop_threshold cfg \<le> \<bar>velocity as\<bar>" and "emit_whole as cfg \<noteq> 0"
  shows "emit_axis as hc cfg =
     (True,
      Rel hc (emit_whole as cfg) #
        replicate (nat (\<bar>lowres_accum as + emit_whole as cfg\<bar> div 120))
          (Rel (lowres_of hc) (sgn (lowres_accum as + emit_whole as cfg))),
      as\<lparr>velocity := velocity as * (1 - friction cfg),
         emit_accum := emit_accum as + (velocity as - velocity as * (1 - friction cfg))
                        - real_of_int (emit_whole as cfg),
         lowres_accum := (lowres_accum as + emit_whole as cfg) smod 120\<rparr>)"
proof -
  obtain lr evs where b: "(case lowres_up (lowres_of hc) (lowres_accum as + emit_whole as cfg) of (lr1, evs1) \<Rightarrow>
      case lowres_down (lowres_of hc) lr1 of (lr2, evs2) \<Rightarrow> (lr2, evs1 @ evs2)) = (lr, evs)"
    by fastforce
  with lowres_both [of "lowres_of hc" "lowres_accum as + emit_whole as cfg"]
  have lr: "lr = (lowres_accum as + emit_whole as cfg) smod 120"
    and evs: "evs = replicate (nat (\<bar>lowres_accum as + emit_whole as cfg\<bar> div 120))
          (Rel (lowres_of hc) (sgn (lowres_accum as + emit_whole as cfg)))"
    by simp_all
  from b have "emit_axis as hc cfg =
     (True, Rel hc (emit_whole as cfg) # evs,
      as\<lparr>velocity := velocity as * (1 - friction cfg),
         emit_accum := emit_accum as + (velocity as - velocity as * (1 - friction cfg))
                        - real_of_int (emit_whole as cfg),
         lowres_accum := lr\<rparr>)"
    using assms
    by (simp add: emit_axis_def emit_whole_def Let_def split: prod.splits)
  then show ?thesis by (simp add: lr evs)
qed

lemma tick_state_move:
  assumes "stop_threshold cfg \<le> \<bar>velocity as\<bar>"
  shows "tick_state as hc cfg =
      as\<lparr>velocity := velocity as * (1 - friction cfg),
         emit_accum := emit_accum as + (velocity as - velocity as * (1 - friction cfg))
                        - real_of_int (emit_whole as cfg),
         lowres_accum := (if emit_whole as cfg = 0 then lowres_accum as
                          else (lowres_accum as + emit_whole as cfg) smod 120)\<rparr>"
proof (cases "emit_whole as cfg = 0")
  case True
  with assms show ?thesis by (simp add: tick_state_quiet)
next
  case False
  with assms show ?thesis by (simp add: tick_state_def emit_axis_move)
qed




lemma map_mirror_replicate: "map mirror_event (replicate n (Rel c v)) = replicate n (Rel c (- v))"
  by simp


section \<open>Decay, remainder and truncation (C4)\<close>


lemma decay_amount_exact:
  "stop_threshold cfg \<le> \<bar>velocity as\<bar> \<Longrightarrow>
   velocity as - velocity (tick_state as hc cfg) = velocity as * friction cfg"
  by (simp add: tick_state_move algebra_simps)



section \<open>Conservation between hi-res and low-res output (C5)\<close>

lemma sum_code_replicate:
  "sum_code c (replicate n (Rel c' v)) = (if c' = c then int n * v else 0)"
  by (induction n) (simp_all add: algebra_simps)

lemma sum_code_append: "sum_code c (xs @ ys) = sum_code c xs + sum_code c ys"
  by (induction c xs rule: sum_code.induct) simp_all

lemma lowres_of_hires:
  "hc = REL_WHEEL_HI_RES \<or> hc = REL_HWHEEL_HI_RES \<Longrightarrow> lowres_of hc \<noteq> hc"
  by (auto simp: lowres_of_def)

lemma smod_recompose: "120 * (int (nat (\<bar>t\<bar> div 120)) * sgn t) + t smod 120 = (t::int)"
proof -
  define q r where "q = \<bar>t\<bar> div 120" and "r = \<bar>t\<bar> mod 120"
  have qr: "120 * q + r = \<bar>t\<bar>"
    by (simp add: q_def r_def)
  have "120 * (q * sgn t) + sgn t * r = sgn t * (120 * q + r)"
    by (simp add: algebra_simps)
  also have "\<dots> = sgn t * \<bar>t\<bar>"
    by (simp only: qr)
  also have "\<dots> = t"
    by (simp add: sgn_if)
  finally have "120 * (q * sgn t) + sgn t * r = t" .
  moreover have "int (nat q) = q"
    by (simp add: q_def pos_imp_zdiv_nonneg_iff)
  ultimately show ?thesis
    by (simp add: signed_modulo_int_def q_def r_def)
qed

lemma emit_conserves:
  assumes hc: "hc = REL_WHEEL_HI_RES \<or> hc = REL_HWHEEL_HI_RES"
    and v: "stop_threshold cfg \<le> \<bar>velocity as\<bar>"
  shows "HIRES_PER_TICK * sum_code (lowres_of hc) (fst (snd (emit_axis as hc cfg)))
           + lowres_accum (snd (snd (emit_axis as hc cfg)))
         = lowres_accum as + sum_code hc (fst (snd (emit_axis as hc cfg)))"
proof (cases "emit_whole as cfg = 0")
  case True
  with v show ?thesis by (simp add: emit_axis_quiet)
next
  case False
  have ne: "lowres_of hc \<noteq> hc" "hc \<noteq> lowres_of hc"
    using lowres_of_hires [OF hc] by auto
  from v False show ?thesis
    using smod_recompose [of "lowres_accum as + emit_whole as cfg"]
    by (simp add: emit_axis_move sum_code_replicate ne HIRES_PER_TICK_def)
qed

lemma force_conserves:
  assumes hc: "hc = REL_WHEEL_HI_RES \<or> hc = REL_HWHEEL_HI_RES"
  shows "HIRES_PER_TICK * sum_code (lowres_of hc) (fst (snd (force_emit d as hc cfg)))
           + lowres_accum (snd (snd (force_emit d as hc cfg)))
         = lowres_accum as + sum_code hc (fst (snd (force_emit d as hc cfg)))"
proof -
  have ne: "hc \<noteq> lowres_of hc"
    using lowres_of_hires [OF hc] by auto
  show ?thesis
    by (simp add: force_emit_def force_dir_def Let_def ne)
qed

lemma sum_code_Syn: "sum_code c (evs @ [Syn]) = sum_code c evs"
  by (simp add: sum_code_append)

lemma inject_lowres: "lowres_accum (inject as raw ts cfg) = lowres_accum as"
  by (simp add: inject_def Let_def)

lemma input_conserves:
  assumes hc: "hc = REL_WHEEL_HI_RES \<or> hc = REL_HWHEEL_HI_RES"
    and v: "stop_threshold cfg \<le> \<bar>velocity (inject as raw ts cfg)\<bar>"
  shows "HIRES_PER_TICK * sum_code (lowres_of hc) (fst (axis_input as hc raw ts cfg))
           + lowres_accum (snd (axis_input as hc raw ts cfg))
         = lowres_accum as + sum_code hc (fst (axis_input as hc raw ts cfg))"
proof -
  let ?e = "emit_axis (inject as raw ts cfg) hc cfg"
  let ?f = "force_emit (fst ?e) (snd (snd ?e)) hc cfg"
  have a: "axis_input as hc raw ts cfg =
      (fst (snd ?e) @ fst (snd ?f) @ (if fst ?f then [Syn] else []), snd (snd ?f))"
    by (simp add: axis_input_def Let_def split_beta)
  have s: "sum_code c (xs @ ys @ (if b then [Syn] else [])) = sum_code c xs + sum_code c ys"
    for c xs ys b
    by (simp add: sum_code_append)
  from emit_conserves [OF hc v]
    force_conserves [OF hc, of "fst ?e" "snd (snd ?e)" cfg]
  show ?thesis
    unfolding a by (simp add: s inject_lowres algebra_simps)
qed

lemma run_conserves:
  assumes hc: "hc = REL_WHEEL_HI_RES \<or> hc = REL_HWHEEL_HI_RES"
  shows "no_reset sts as hc cfg \<Longrightarrow>
         HIRES_PER_TICK * sum_code (lowres_of hc) (fst (run_steps sts as hc cfg))
           + lowres_accum (snd (run_steps sts as hc cfg))
         = lowres_accum as + sum_code hc (fst (run_steps sts as hc cfg))"
proof (induction sts arbitrary: as)
  case Nil
  then show ?case by simp
next
  case (Cons st sts)
  let ?r = "do_step st as hc cfg"
  have one: "HIRES_PER_TICK * sum_code (lowres_of hc) (fst ?r) + lowres_accum (snd ?r)
      = lowres_accum as + sum_code hc (fst ?r)"
  proof (cases st)
    case Tick
    with Cons.prems have "stop_threshold cfg \<le> \<bar>velocity as\<bar>" by simp
    from emit_conserves [OF hc this] Tick show ?thesis by simp
  next
    case (Input raw ts)
    with Cons.prems have "stop_threshold cfg \<le> \<bar>velocity (inject as raw ts cfg)\<bar>" by simp
    from input_conserves [OF hc this] Input show ?thesis by simp
  qed
  from Cons.prems have "no_reset sts (snd ?r) hc cfg" by simp
  from Cons.IH [OF this] one show ?case
    by (simp add: split_beta sum_code_append algebra_simps)
qed

lemma example_input:
  "axis_input axis_init REL_WHEEL_HI_RES (scroll_raw REL_WHEEL_HI_RES 1) 0 example_config =
     ([Rel REL_WHEEL_HI_RES 1, Syn], example_axis)"
proof -
  let ?a1 = "axis_init\<lparr>rate := rate_record rate_init 0, velocity := 7 / 4\<rparr>"
  have a1: "inject axis_init (scroll_raw REL_WHEEL_HI_RES 1) 0 example_config = ?a1"
    by (simp add: inject_first example_config_simps)
  have w: "emit_whole ?a1 example_config = 0"
    by (simp add: emit_whole_def example_config_simps axis_init_def int_cast_small)
  have e: "emit_axis ?a1 REL_WHEEL_HI_RES example_config =
      (False, [], ?a1\<lparr>velocity := 49 / 32, emit_accum := 7 / 32\<rparr>)"
    by (subst emit_axis_quiet) (simp_all add: w, simp_all add: example_config_simps axis_init_def)
  show ?thesis
    unfolding axis_input_def a1 Let_def e
    by (simp add: force_emit_def force_dir_def example_config_simps axis_init_def example_axis_eq)
qed

lemma example_run:
  "run_steps [Input (scroll_raw REL_WHEEL_HI_RES 1) 0, Tick, Tick] axis_init REL_WHEEL_HI_RES
     example_config =
     ([Rel REL_WHEEL_HI_RES 1, Syn],
      example_axis\<lparr>velocity := 0, emit_accum := 0, lowres_accum := 0\<rparr>)"
proof -
  have q: "emit_axis example_axis REL_WHEEL_HI_RES example_config =
      (False, [], example_axis\<lparr>velocity := 119 / 256, emit_accum := 17 / 256\<rparr>)"
    by (subst emit_axis_quiet)
      (simp_all add: example_axis_eq example_config_simps axis_init_def emit_whole_def int_cast_small)
  have r: "emit_axis (example_axis\<lparr>velocity := 119 / 256, emit_accum := 17 / 256\<rparr>)
      REL_WHEEL_HI_RES example_config =
      (False, [], example_axis\<lparr>velocity := 0, emit_accum := 0, lowres_accum := 0\<rparr>)"
    by (subst emit_axis_rest) (simp_all add: example_config_simps)
  show ?thesis
    by (simp add: example_input q r del: scroll_raw.simps)
qed

text \<open>
  C5, as the specification states it: over any sequence of emissions on one axis, 120
  times the sum of the low-res values plus the final \<open>lowres_accum\<close> equals the sum of
  the hi-res values. This fails once the axis comes to rest: the tick that finds the
  velocity below the stop threshold sets \<open>lowres_accum\<close> to 0 and the units it held are
  never passed on. In the example the first scroll event writes one hi-res unit through
  the fallback (carry 1), the first tick writes nothing, the second tick resets the
  axis: one hi-res unit was written, no low-res unit, and the final carry is 0.
\<close>

theorem conservation_counterexample:
  "sum_code REL_WHEEL_HI_RES
     (fst (run_steps [Input (scroll_raw REL_WHEEL_HI_RES 1) 0, Tick, Tick] axis_init
        REL_WHEEL_HI_RES example_config)) = 1 \<and>
   sum_code REL_WHEEL
     (fst (run_steps [Input (scroll_raw REL_WHEEL_HI_RES 1) 0, Tick, Tick] axis_init
        REL_WHEEL_HI_RES example_config)) = 0 \<and>
   lowres_accum
     (snd (run_steps [Input (scroll_raw REL_WHEEL_HI_RES 1) 0, Tick, Tick] axis_init
        REL_WHEEL_HI_RES example_config)) = 0 \<and>
   lowres_accum axis_init = 0"
  unfolding example_run by (simp add: axis_init_def)

lemma rate_second:
  "rate_compute (rate_record (rate_record rate_init 0) 1000000000) 1000000000 = 0"
  by (simp add: rate_compute_def rate_record_def rate_init_def rate_scan_step rate_scan_stop
      RATE_RING_SIZE_def RATE_WINDOW_NS_def smod_nonneg Let_def)

lemma impulse_step1:
  "axis_input axis_init REL_WHEEL_HI_RES 1120 0 example_config =
     ([Rel REL_WHEEL_HI_RES 245, Rel REL_WHEEL 1, Rel REL_WHEEL 1, Syn],
      axis_init\<lparr>rate := rate_record rate_init 0, velocity := 1715, lowres_accum := 5\<rparr>)"
proof -
  let ?a = "axis_init\<lparr>rate := rate_record rate_init 0, velocity := 1960\<rparr>"
  have a: "inject axis_init 1120 0 example_config = ?a"
    by (simp add: inject_first example_config_simps)
  have w: "emit_whole ?a example_config = 245"
    by (simp add: emit_whole_def example_config_simps axis_init_def int_cast_eval)
  have e: "emit_axis ?a REL_WHEEL_HI_RES example_config =
      (True, [Rel REL_WHEEL_HI_RES 245, Rel REL_WHEEL 1, Rel REL_WHEEL 1],
       axis_init\<lparr>rate := rate_record rate_init 0, velocity := 1715, lowres_accum := 5\<rparr>)"
    using emit_axis_move [of example_config ?a REL_WHEEL_HI_RES] unfolding w
    by (simp add: example_config_simps lowres_of_def signed_modulo_int_def)
      (simp add: axis_init_def numeral_2_eq_2)
  show ?thesis
    unfolding axis_input_def a Let_def e by (simp add: force_emit_def)
qed

lemma impulse_step2:
  "emit_axis (axis_init\<lparr>rate := rate_record rate_init 0, velocity := 1715, lowres_accum := 5\<rparr>)
     REL_WHEEL_HI_RES example_config =
     (True, [Rel REL_WHEEL_HI_RES 214, Rel REL_WHEEL 1],
      axis_init\<lparr>rate := rate_record rate_init 0, velocity := 12005 / 8, lowres_accum := 99,
        emit_accum := 3 / 8\<rparr>)"
proof -
  let ?a = "axis_init\<lparr>rate := rate_record rate_init 0, velocity := 1715, lowres_accum := 5\<rparr>"
  have w: "emit_whole ?a example_config = 214"
    by (simp add: emit_whole_def example_config_simps axis_init_def int_cast_eval)
  show ?thesis
    using emit_axis_move [of example_config ?a REL_WHEEL_HI_RES] unfolding w
    by (simp add: example_config_simps lowres_of_def signed_modulo_int_def)
      (simp add: axis_init_def)
qed

lemma impulse_inject3:
  "inject (axis_init\<lparr>rate := rate_record rate_init 0, velocity := 12005 / 8, lowres_accum := 99,
        emit_accum := 3 / 8\<rparr>) 1120 1000000000 example_config =
     axis_init\<lparr>rate := rate_record (rate_record rate_init 0) 1000000000,
       velocity := 27685 / 8, lowres_accum := 99, emit_accum := 3 / 8\<rparr>"
  by (simp add: inject_def rate_second compute_scale_def example_config_simps axis_init_def)

lemma impulse_step3:
  "axis_input (axis_init\<lparr>rate := rate_record rate_init 0, velocity := 12005 / 8, lowres_accum := 99,
        emit_accum := 3 / 8\<rparr>) REL_WHEEL_HI_RES 1120 1000000000 example_config =
     ([Rel REL_WHEEL_HI_RES 432, Rel REL_WHEEL 1, Rel REL_WHEEL 1, Rel REL_WHEEL 1, Rel REL_WHEEL 1, Syn],
      axis_init\<lparr>rate := rate_record (rate_record rate_init 0) 1000000000,
        velocity := 193795 / 64, lowres_accum := 51, emit_accum := 61 / 64\<rparr>)"
proof -
  let ?a = "axis_init\<lparr>rate := rate_record (rate_record rate_init 0) 1000000000,
       velocity := 27685 / 8, lowres_accum := 99, emit_accum := 3 / 8\<rparr>"
  have w: "emit_whole ?a example_config = 432"
    by (simp add: emit_whole_def example_config_simps axis_init_def int_cast_eval)
  have r4: "replicate 4 x = [x, x, x, x]" for x :: event
    by (simp add: eval_nat_numeral)
  have e: "emit_axis ?a REL_WHEEL_HI_RES example_config =
      (True, [Rel REL_WHEEL_HI_RES 432, Rel REL_WHEEL 1, Rel REL_WHEEL 1, Rel REL_WHEEL 1, Rel REL_WHEEL 1],
       axis_init\<lparr>rate := rate_record (rate_record rate_init 0) 1000000000,
        velocity := 193795 / 64, lowres_accum := 51, emit_accum := 61 / 64\<rparr>)"
    using emit_axis_move [of example_config ?a REL_WHEEL_HI_RES] unfolding w
    by (simp add: example_config_simps lowres_of_def signed_modulo_int_def)
      (simp add: axis_init_def r4)
  show ?thesis
    unfolding axis_input_def impulse_inject3 Let_def e by (simp add: force_emit_def)
qed

lemma impulse_run:
  "run_steps [Input 1120 0, Tick, Input 1120 1000000000] axis_init REL_WHEEL_HI_RES example_config =
     ([Rel REL_WHEEL_HI_RES 245, Rel REL_WHEEL 1, Rel REL_WHEEL 1, Syn,
       Rel REL_WHEEL_HI_RES 214, Rel REL_WHEEL 1,
       Rel REL_WHEEL_HI_RES 432, Rel REL_WHEEL 1, Rel REL_WHEEL 1, Rel REL_WHEEL 1, Rel REL_WHEEL 1, Syn],
      axis_init\<lparr>rate := rate_record (rate_record rate_init 0) 1000000000,
        velocity := 193795 / 64, lowres_accum := 51, emit_accum := 61 / 64\<rparr>)"
  by (simp add: impulse_step1 impulse_step2 impulse_step3)

lemma impulse_no_reset:
  "no_reset [Input 1120 0, Tick, Input 1120 1000000000] axis_init REL_WHEEL_HI_RES example_config"
proof -
  have a: "inject axis_init 1120 0 example_config =
      axis_init\<lparr>rate := rate_record rate_init 0, velocity := 1960\<rparr>"
    by (simp add: inject_first example_config_simps)
  show ?thesis
    by (simp add: impulse_step1 impulse_step2 impulse_step3 a impulse_inject3)
      (simp add: example_config_simps)
qed

lemma impulse_defined:
  "run_defined [Input 1120 0, Tick, Input 1120 1000000000] axis_init REL_WHEEL_HI_RES example_config"
proof -
  have a: "inject axis_init 1120 0 example_config =
      axis_init\<lparr>rate := rate_record rate_init 0, velocity := 1960\<rparr>"
    by (simp add: inject_first example_config_simps)
  show ?thesis
    by (simp add: impulse_step1 impulse_step2 impulse_step3 a impulse_inject3)
      (simp add: emit_defined_def example_config_simps axis_init_def whole_part_def in_int_def
        INT_MIN_def INT_MAX_def)
qed

text \<open>
  C5, amended: over any run of one axis (ticks and scroll events, in any order) that is
  defined and in which no call of \<^verbatim>\<open>emit_axis\<close> finds the velocity below the stop
  threshold, 120 times the sum of the low-res values written, plus the final
  \<open>lowres_accum\<close>, equals the initial \<open>lowres_accum\<close> plus the sum of the hi-res values
  written. A single call that emits \<open>w\<close> hi-res units writes one low-res unit, of the
  sign of the new total, for each full 120 in the magnitude of \<open>lowres_accum + w\<close>, and
  keeps the remainder, truncated toward zero.
\<close>

theorem conservation_between_resets:
  assumes "hc = REL_WHEEL_HI_RES \<or> hc = REL_HWHEEL_HI_RES"
    and "no_reset sts as hc cfg"
    and "run_defined sts as hc cfg"
  shows "HIRES_PER_TICK * sum_code (lowres_of hc) (fst (run_steps sts as hc cfg))
           + lowres_accum (snd (run_steps sts as hc cfg))
         = lowres_accum as + sum_code hc (fst (run_steps sts as hc cfg)) \<and>
         (stop_threshold cfg \<le> \<bar>velocity as\<bar> \<and> emit_defined as cfg \<and> emit_whole as cfg \<noteq> 0 \<longrightarrow>
            fst (snd (emit_axis as hc cfg)) =
              Rel hc (emit_whole as cfg) #
                replicate (nat (\<bar>lowres_accum as + emit_whole as cfg\<bar> div 120))
                  (Rel (lowres_of hc) (sgn (lowres_accum as + emit_whole as cfg))) \<and>
            lowres_accum (tick_state as hc cfg) = (lowres_accum as + emit_whole as cfg) smod 120)"
  using run_conserves [OF assms(1,2)] by (simp add: emit_axis_move tick_state_def)

text \<open>
  Two scroll events a second apart with a tick between them, each injecting the velocity
  1960: the steps write 245, 214 and 432 hi-res units and 2, 1 and 4 low-res units and
  leave the carry 51: 120 * 7 + 51 = 891.
\<close>

theorem conservation_between_resets_witness:
  "sum_code REL_WHEEL_HI_RES
     (fst (run_steps [Input 1120 0, Tick, Input 1120 1000000000] axis_init REL_WHEEL_HI_RES
        example_config)) = 891 \<and>
   sum_code REL_WHEEL
     (fst (run_steps [Input 1120 0, Tick, Input 1120 1000000000] axis_init REL_WHEEL_HI_RES
        example_config)) = 7 \<and>
   lowres_accum
     (snd (run_steps [Input 1120 0, Tick, Input 1120 1000000000] axis_init REL_WHEEL_HI_RES
        example_config)) = 51 \<and>
   fst (snd (emit_axis (axis_init\<lparr>rate := rate_record rate_init 0, velocity := 1715, lowres_accum := 5\<rparr>)
     REL_WHEEL_HI_RES example_config)) = [Rel REL_WHEEL_HI_RES 214, Rel REL_WHEEL 1]"
proof -
  have l: "lowres_accum axis_init = 0"
    by (simp add: axis_init_def)
  from conservation_between_resets [of REL_WHEEL_HI_RES, OF _ impulse_no_reset impulse_defined]
  have "HIRES_PER_TICK * sum_code (lowres_of REL_WHEEL_HI_RES)
          (fst (run_steps [Input 1120 0, Tick, Input 1120 1000000000] axis_init REL_WHEEL_HI_RES
             example_config))
        + lowres_accum (snd (run_steps [Input 1120 0, Tick, Input 1120 1000000000] axis_init
             REL_WHEEL_HI_RES example_config))
        = lowres_accum axis_init
          + sum_code REL_WHEEL_HI_RES
              (fst (run_steps [Input 1120 0, Tick, Input 1120 1000000000] axis_init
                 REL_WHEEL_HI_RES example_config))"
    by blast
  then show ?thesis
    unfolding impulse_run impulse_step2 l by (simp add: lowres_of_def HIRES_PER_TICK_def)
qed

section \<open>The force-emit fallback (C6, C10)\<close>

lemma emit_axis_False:
  assumes "emit_axis as hc cfg = (False, evs, as')"
  shows "evs = []"
proof -
  consider "\<bar>velocity as\<bar> < stop_threshold cfg"
    | "stop_threshold cfg \<le> \<bar>velocity as\<bar>" "emit_whole as cfg = 0"
    | "stop_threshold cfg \<le> \<bar>velocity as\<bar>" "emit_whole as cfg \<noteq> 0"
    by linarith
  then show ?thesis
    using assms by cases (simp_all add: emit_axis_rest emit_axis_quiet emit_axis_move)
qed

lemma force_emit_fires:
  assumes "stop_threshold cfg \<le> \<bar>velocity as\<bar>"
  shows "force_emit False as hc cfg =
     (True, [Rel hc (force_dir as)],
      as\<lparr>lowres_accum := lowres_accum as + force_dir as,
         velocity := velocity as - real_of_int (force_dir as),
         emit_accum := 0\<rparr>)"
  using assms by (simp add: force_emit_def Let_def)

lemma axis_input_fallback:
  assumes "emit_axis (inject as raw ts cfg) hc cfg = (False, evs, as2)"
    and "stop_threshold cfg \<le> \<bar>velocity as2\<bar>"
  shows "axis_input as hc raw ts cfg =
     ([Rel hc (force_dir as2), Syn],
      as2\<lparr>lowres_accum := lowres_accum as2 + force_dir as2,
          velocity := velocity as2 - real_of_int (force_dir as2),
          emit_accum := 0\<rparr>)"
proof -
  have "evs = []" using assms(1) by (rule emit_axis_False)
  then show ?thesis
    unfolding axis_input_def Let_def assms(1) by (simp add: force_emit_fires [OF assms(2)])
qed

lemma force_dir_sgn: "velocity as \<noteq> 0 \<Longrightarrow> real_of_int (force_dir as) = sgn (velocity as)"
  by (simp add: force_dir_def sgn_if)

text \<open>
  C6: on an impulse, when the immediate \<^verbatim>\<open>emit_axis\<close> returns 0 (it then wrote nothing)
  and leaves a velocity at or above the stop threshold in magnitude, the impulse path
  writes exactly one hi-res event, of value \<open>force_dir\<close>, which is 1 or -1, followed by
  the \<^verbatim>\<open>SYN_REPORT\<close>, and takes exactly that unit off the velocity. \<open>force_dir\<close> is the
  sign of the velocity whenever the velocity is not 0, and it is not 0 when the stop
  threshold is positive. The decay and the remainder are not involved: the velocity
  changes by the unit alone.
\<close>

theorem force_emit_fallback:
  assumes "emit_axis (inject as raw ts cfg) hc cfg = (False, evs, as2)"
    and "stop_threshold cfg \<le> \<bar>velocity as2\<bar>"
  shows "axis_input as hc raw ts cfg =
           ([Rel hc (force_dir as2), Syn],
            as2\<lparr>lowres_accum := lowres_accum as2 + force_dir as2,
                velocity := velocity as2 - real_of_int (force_dir as2),
                emit_accum := 0\<rparr>) \<and>
         (force_dir as2 = 1 \<or> force_dir as2 = - 1) \<and>
         (velocity as2 \<noteq> 0 \<longrightarrow> real_of_int (force_dir as2) = sgn (velocity as2)) \<and>
         (0 < stop_threshold cfg \<longrightarrow> velocity as2 \<noteq> 0)"
proof (intro conjI impI)
  show "axis_input as hc raw ts cfg =
           ([Rel hc (force_dir as2), Syn],
            as2\<lparr>lowres_accum := lowres_accum as2 + force_dir as2,
                velocity := velocity as2 - real_of_int (force_dir as2),
                emit_accum := 0\<rparr>)"
    by (rule axis_input_fallback [OF assms])
  show "force_dir as2 = 1 \<or> force_dir as2 = - 1"
    by (simp add: force_dir_def)
  show "real_of_int (force_dir as2) = sgn (velocity as2)" if "velocity as2 \<noteq> 0"
    using that by (rule force_dir_sgn)
  show "velocity as2 \<noteq> 0" if "0 < stop_threshold cfg"
    using that assms(2) by auto
qed

text \<open>
  The first scroll event of the example: the immediate step decays 7/4 to 49/32 and
  extracts nothing, the fallback writes +1 and leaves 17/32.
\<close>

theorem force_emit_fallback_witness:
  "emit_axis (inject axis_init (scroll_raw REL_WHEEL_HI_RES 1) 0 example_config) REL_WHEEL_HI_RES example_config =
     (False, [], axis_init\<lparr>rate := rate_record rate_init 0, velocity := 49 / 32, emit_accum := 7 / 32\<rparr>) \<and>
   stop_threshold example_config
     \<le> \<bar>velocity (axis_init\<lparr>rate := rate_record rate_init 0, velocity := 49 / 32, emit_accum := 7 / 32\<rparr>)\<bar> \<and>
   axis_input axis_init REL_WHEEL_HI_RES (scroll_raw REL_WHEEL_HI_RES 1) 0 example_config =
     ([Rel REL_WHEEL_HI_RES 1, Syn],
      axis_init\<lparr>rate := rate_record rate_init 0, velocity := 17 / 32, emit_accum := 0, lowres_accum := 1\<rparr>)"
proof -
  let ?a1 = "axis_init\<lparr>rate := rate_record rate_init 0, velocity := 7 / 4\<rparr>"
  let ?a2 = "axis_init\<lparr>rate := rate_record rate_init 0, velocity := 49 / 32, emit_accum := 7 / 32\<rparr>"
  have a1: "inject axis_init (scroll_raw REL_WHEEL_HI_RES 1) 0 example_config = ?a1"
    by (simp add: inject_first example_config_simps)
  have w: "emit_whole ?a1 example_config = 0"
    by (simp add: emit_whole_def example_config_simps axis_init_def int_cast_small)
  have "emit_axis ?a1 REL_WHEEL_HI_RES example_config = (False, [], ?a2)"
    by (subst emit_axis_quiet) (simp_all add: w, simp_all add: example_config_simps axis_init_def)
  then have e: "emit_axis (inject axis_init (scroll_raw REL_WHEEL_HI_RES 1) 0 example_config)
      REL_WHEEL_HI_RES example_config = (False, [], ?a2)"
    by (simp only: a1)
  have t: "stop_threshold example_config \<le> \<bar>velocity ?a2\<bar>"
    by (simp add: example_config_simps)
  have d: "force_dir ?a2 = 1"
    by (simp add: force_dir_def)
  from force_emit_fallback [OF e t] have "axis_input axis_init REL_WHEEL_HI_RES (scroll_raw REL_WHEEL_HI_RES 1) 0 example_config =
           ([Rel REL_WHEEL_HI_RES (force_dir ?a2), Syn],
            ?a2\<lparr>lowres_accum := lowres_accum ?a2 + force_dir ?a2,
                velocity := velocity ?a2 - real_of_int (force_dir ?a2),
                emit_accum := 0\<rparr>)"
    by (rule conjunct1)
  then have "axis_input axis_init REL_WHEEL_HI_RES (scroll_raw REL_WHEEL_HI_RES 1) 0 example_config =
     ([Rel REL_WHEEL_HI_RES 1, Syn],
      axis_init\<lparr>rate := rate_record rate_init 0, velocity := 17 / 32, emit_accum := 0, lowres_accum := 1\<rparr>)"
    unfolding d by (simp add: axis_init_def)
  with e t show ?thesis by (intro conjI)
qed

text \<open>
  C10: when the fallback fires, beyond writing its unit it sets \<open>emit_accum\<close> to 0,
  dropping the fraction the immediate step had accumulated, and it takes a whole unit
  off the velocity. If that velocity is smaller than 1 in magnitude (and not 0), the
  velocity left has the opposite sign; and if the velocity left is below the stop
  threshold in magnitude, the next tick resets the axis.
\<close>

theorem force_emit_side_effects:
  assumes "emit_axis (inject as raw ts cfg) hc cfg = (False, evs, as2)"
    and "stop_threshold cfg \<le> \<bar>velocity as2\<bar>"
  shows "emit_accum (snd (axis_input as hc raw ts cfg)) = 0 \<and>
         velocity (snd (axis_input as hc raw ts cfg)) = velocity as2 - real_of_int (force_dir as2) \<and>
         (velocity as2 \<noteq> 0 \<and> \<bar>velocity as2\<bar> < 1 \<longrightarrow>
            sgn (velocity (snd (axis_input as hc raw ts cfg))) = - sgn (velocity as2)) \<and>
         (\<bar>velocity as2 - real_of_int (force_dir as2)\<bar> < stop_threshold cfg \<longrightarrow>
            tick_state (snd (axis_input as hc raw ts cfg)) hc cfg =
              (snd (axis_input as hc raw ts cfg))\<lparr>velocity := 0, emit_accum := 0, lowres_accum := 0\<rparr>)"
proof (intro conjI impI)
  note r = axis_input_fallback [OF assms]
  show "emit_accum (snd (axis_input as hc raw ts cfg)) = 0"
    by (simp add: r)
  show v: "velocity (snd (axis_input as hc raw ts cfg)) = velocity as2 - real_of_int (force_dir as2)"
    by (simp add: r)
  show "sgn (velocity (snd (axis_input as hc raw ts cfg))) = - sgn (velocity as2)"
    if "velocity as2 \<noteq> 0 \<and> \<bar>velocity as2\<bar> < 1"
    using that unfolding v by (auto simp: force_dir_def sgn_if)
  show "tick_state (snd (axis_input as hc raw ts cfg)) hc cfg =
      (snd (axis_input as hc raw ts cfg))\<lparr>velocity := 0, emit_accum := 0, lowres_accum := 0\<rparr>"
    if "\<bar>velocity as2 - real_of_int (force_dir as2)\<bar> < stop_threshold cfg"
    using that by (intro tick_state_rest) (simp add: v)
qed

text \<open>
  A velocity of +0.9 that becomes -0.1, with friction 1/10 and multiplier 1: one hi-res unit gives
  velocity 1, the immediate step leaves 0.9 and extracts nothing, the fallback writes +1
  and leaves -0.1 with an empty remainder, and the next tick resets the axis.
\<close>

theorem force_emit_side_effects_witness:
  "emit_axis (inject axis_init (scroll_raw REL_WHEEL_HI_RES 1) 0 (default_config\<lparr>friction := 1 / 10, multiplier := 1\<rparr>))
     REL_WHEEL_HI_RES (default_config\<lparr>friction := 1 / 10, multiplier := 1\<rparr>) =
     (False, [], axis_init\<lparr>rate := rate_record rate_init 0, velocity := 9 / 10, emit_accum := 1 / 10\<rparr>) \<and>
   stop_threshold (default_config\<lparr>friction := 1 / 10, multiplier := 1\<rparr>)
     \<le> \<bar>velocity (axis_init\<lparr>rate := rate_record rate_init 0, velocity := 9 / 10, emit_accum := 1 / 10\<rparr>)\<bar> \<and>
   velocity (snd (axis_input axis_init REL_WHEEL_HI_RES (scroll_raw REL_WHEEL_HI_RES 1) 0
     (default_config\<lparr>friction := 1 / 10, multiplier := 1\<rparr>))) = - 1 / 10 \<and>
   emit_accum (snd (axis_input axis_init REL_WHEEL_HI_RES (scroll_raw REL_WHEEL_HI_RES 1) 0
     (default_config\<lparr>friction := 1 / 10, multiplier := 1\<rparr>))) = 0 \<and>
   velocity (tick_state (snd (axis_input axis_init REL_WHEEL_HI_RES (scroll_raw REL_WHEEL_HI_RES 1) 0
     (default_config\<lparr>friction := 1 / 10, multiplier := 1\<rparr>))) REL_WHEEL_HI_RES
     (default_config\<lparr>friction := 1 / 10, multiplier := 1\<rparr>)) = 0"
proof -
  let ?c = "default_config\<lparr>friction := 1 / 10, multiplier := 1\<rparr>"
  let ?a1 = "axis_init\<lparr>rate := rate_record rate_init 0, velocity := 1\<rparr>"
  let ?a2 = "axis_init\<lparr>rate := rate_record rate_init 0, velocity := 9 / 10, emit_accum := 1 / 10\<rparr>"
  have c: "friction ?c = 1 / 10" "multiplier ?c = 1" "stop_threshold ?c = 1 / 2" "low_rate ?c = 5"
    by (simp_all add: default_config_simps)
  have a1: "inject axis_init (scroll_raw REL_WHEEL_HI_RES 1) 0 ?c = ?a1"
    by (simp add: inject_first c default_config_simps)
  have w: "emit_whole ?a1 ?c = 0"
    by (simp add: emit_whole_def c default_config_simps axis_init_def int_cast_small)
  have "emit_axis ?a1 REL_WHEEL_HI_RES ?c = (False, [], ?a2)"
    by (subst emit_axis_quiet) (simp_all add: w, simp_all add: c default_config_simps axis_init_def)
  then have e: "emit_axis (inject axis_init (scroll_raw REL_WHEEL_HI_RES 1) 0 ?c) REL_WHEEL_HI_RES ?c
      = (False, [], ?a2)"
    by (simp only: a1)
  have t: "stop_threshold ?c \<le> \<bar>velocity ?a2\<bar>"
    by (simp add: c default_config_simps)
  have d: "velocity ?a2 - real_of_int (force_dir ?a2) = - 1 / 10"
    by (simp add: force_dir_def)
  from force_emit_side_effects [OF e t] show ?thesis
    unfolding d using e t by (simp add: c default_config_simps)
qed

section \<open>Decay and settling (C7)\<close>

lemma tick_velocity:
  "velocity (tick_state as hc cfg) =
     (if \<bar>velocity as\<bar> < stop_threshold cfg then 0 else velocity as * (1 - friction cfg))"
  by (simp add: tick_state_rest tick_state_move)

lemma ticks_Suc_right: "ticks (Suc n) as hc cfg = tick_state (ticks n as hc cfg) hc cfg"
  by (induction n arbitrary: as) simp_all

lemma tick_abs_le:
  assumes "0 < friction cfg" and "friction cfg < 1"
  shows "\<bar>velocity (tick_state as hc cfg)\<bar> \<le> \<bar>velocity as\<bar>"
proof (cases "\<bar>velocity as\<bar> < stop_threshold cfg")
  case True
  then show ?thesis by (simp add: tick_velocity)
next
  case False
  have "\<bar>velocity as * (1 - friction cfg)\<bar> = \<bar>velocity as\<bar> * (1 - friction cfg)"
    using assms by (simp add: abs_mult)
  also have "\<dots> \<le> \<bar>velocity as\<bar> * 1"
    using assms by (intro mult_left_mono) simp_all
  finally show ?thesis using False by (simp add: tick_velocity)
qed

lemma ticks_geometric:
  "(\<forall>k<n. stop_threshold cfg \<le> \<bar>velocity (ticks k as hc cfg)\<bar>) \<Longrightarrow>
   velocity (ticks n as hc cfg) = velocity as * (1 - friction cfg) ^ n"
proof (induction n)
  case 0
  then show ?case by simp
next
  case (Suc n)
  then have ih: "velocity (ticks n as hc cfg) = velocity as * (1 - friction cfg) ^ n"
    by simp
  from Suc.prems have "stop_threshold cfg \<le> \<bar>velocity (ticks n as hc cfg)\<bar>"
    by simp
  then show ?case
    by (simp add: ticks_Suc_right tick_velocity ih del: ticks.simps)
qed

lemma ticks_settle:
  assumes "0 < friction cfg" and "friction cfg < 1" and "0 < stop_threshold cfg"
  shows "\<exists>n. \<bar>velocity (ticks n as hc cfg)\<bar> < stop_threshold cfg"
proof (rule ccontr)
  assume "\<not> ?thesis"
  then have all: "\<forall>k. stop_threshold cfg \<le> \<bar>velocity (ticks k as hc cfg)\<bar>"
    by (simp add: not_less)
  then have geo: "velocity (ticks n as hc cfg) = velocity as * (1 - friction cfg) ^ n" for n
    by (intro ticks_geometric) simp
  from all [rule_format, of 0] assms(3) have v0: "0 < \<bar>velocity as\<bar>"
    by simp
  then have "0 < stop_threshold cfg / \<bar>velocity as\<bar>"
    using assms(3) by simp
  moreover have "1 - friction cfg < 1"
    using assms(1) by simp
  ultimately obtain n where n: "(1 - friction cfg) ^ n < stop_threshold cfg / \<bar>velocity as\<bar>"
    using real_arch_pow_inv by blast
  have "\<bar>velocity (ticks n as hc cfg)\<bar> = \<bar>velocity as\<bar> * (1 - friction cfg) ^ n"
    using assms(2) by (simp add: geo abs_mult)
  also have "\<dots> < stop_threshold cfg"
    using n v0 by (simp add: pos_less_divide_eq mult.commute)
  finally show False
    using all [rule_format, of n] by simp
qed

lemma ticks_stay_at_rest:
  assumes "0 < stop_threshold cfg" and "\<bar>velocity (ticks n as hc cfg)\<bar> < stop_threshold cfg"
  shows "n < m \<Longrightarrow> velocity (ticks m as hc cfg) = 0 \<and> emit_accum (ticks m as hc cfg) = 0 \<and>
         lowres_accum (ticks m as hc cfg) = 0"
proof (induction m)
  case 0
  then show ?case by simp
next
  case (Suc m)
  have "\<bar>velocity (ticks m as hc cfg)\<bar> < stop_threshold cfg"
  proof (cases "n = m")
    case True
    with assms(2) show ?thesis by simp
  next
    case False
    with Suc.prems have "n < m" by simp
    with Suc.IH assms(1) show ?thesis by simp
  qed
  then show ?case
    by (simp add: ticks_Suc_right tick_state_rest del: ticks.simps)
qed

text \<open>
  C7, as the specification states it: for a friction in (0, 1) and a positive velocity,
  with no new impulse, the magnitude of the velocity never grows from tick to tick and
  falls below the stop threshold after finitely many ticks. The second part fails when
  the stop threshold is not positive, which the program accepts (it does not validate
  \<^verbatim>\<open>--stop-threshold\<close>): with the default friction and the threshold 0 the velocity
  after \<open>n\<close> ticks is \<open>0.922 ^ n\<close>, and no magnitude is below 0.
\<close>

theorem settling_counterexample:
  "0 < friction (default_config\<lparr>stop_threshold := 0\<rparr>) \<and>
   friction (default_config\<lparr>stop_threshold := 0\<rparr>) < 1 \<and>
   0 < velocity (axis_init\<lparr>velocity := 1\<rparr>) \<and>
   (\<forall>n. velocity (ticks n (axis_init\<lparr>velocity := 1\<rparr>) REL_WHEEL_HI_RES
          (default_config\<lparr>stop_threshold := 0\<rparr>)) = (461 / 500) ^ n) \<and>
   \<not> (\<exists>n. \<bar>velocity (ticks n (axis_init\<lparr>velocity := 1\<rparr>) REL_WHEEL_HI_RES
          (default_config\<lparr>stop_threshold := 0\<rparr>))\<bar>
        < stop_threshold (default_config\<lparr>stop_threshold := 0\<rparr>))"
proof -
  let ?C = "default_config\<lparr>stop_threshold := 0\<rparr>"
  let ?A = "axis_init\<lparr>velocity := 1\<rparr>"
  have c: "stop_threshold ?C = 0" "friction ?C = 78 / 1000"
    by (simp_all add: default_config_simps)
  have "velocity (ticks n ?A REL_WHEEL_HI_RES ?C) = velocity ?A * (1 - friction ?C) ^ n" for n
    by (rule ticks_geometric) (simp add: c)
  then have g: "velocity (ticks n ?A REL_WHEEL_HI_RES ?C) = (461 / 500) ^ n" for n
    by (simp add: c default_config_simps)
  show ?thesis
    using g by (simp add: default_config_simps)
qed

text \<open>
  C7, amended: for a friction in (0, 1) and a positive stop threshold, with no new
  impulse, the magnitude of the velocity never grows from tick to tick, it is below the
  stop threshold after finitely many ticks, and from the next tick on the axis is at
  rest. This holds for every starting velocity, positive or not.
\<close>

theorem decay_settles:
  assumes "0 < friction cfg" and "friction cfg < 1" and "0 < stop_threshold cfg"
  shows "(\<forall>n. \<bar>velocity (ticks (Suc n) as hc cfg)\<bar> \<le> \<bar>velocity (ticks n as hc cfg)\<bar>) \<and>
         (\<exists>n. \<bar>velocity (ticks n as hc cfg)\<bar> < stop_threshold cfg \<and>
              (\<forall>m. n < m \<longrightarrow> velocity (ticks m as hc cfg) = 0 \<and>
                     emit_accum (ticks m as hc cfg) = 0 \<and> lowres_accum (ticks m as hc cfg) = 0))"
proof
  show "\<forall>n. \<bar>velocity (ticks (Suc n) as hc cfg)\<bar> \<le> \<bar>velocity (ticks n as hc cfg)\<bar>"
    using tick_abs_le [OF assms(1,2)] by (simp add: ticks_Suc_right del: ticks.simps)
  from ticks_settle [OF assms] obtain n
    where n: "\<bar>velocity (ticks n as hc cfg)\<bar> < stop_threshold cfg"
    by blast
  with ticks_stay_at_rest [OF assms(3) n]
  show "\<exists>n. \<bar>velocity (ticks n as hc cfg)\<bar> < stop_threshold cfg \<and>
              (\<forall>m. n < m \<longrightarrow> velocity (ticks m as hc cfg) = 0 \<and>
                     emit_accum (ticks m as hc cfg) = 0 \<and> lowres_accum (ticks m as hc cfg) = 0)"
    by blast
qed

text \<open>The axis of the example: 17/32, then 119/256, which is below 1/2.\<close>

theorem decay_settles_witness:
  "0 < friction example_config \<and> friction example_config < 1 \<and>
   0 < stop_threshold example_config \<and>
   \<bar>velocity (ticks (Suc 0) example_axis REL_WHEEL_HI_RES example_config)\<bar>
     \<le> \<bar>velocity (ticks 0 example_axis REL_WHEEL_HI_RES example_config)\<bar> \<and>
   (\<exists>n. \<bar>velocity (ticks n example_axis REL_WHEEL_HI_RES example_config)\<bar>
         < stop_threshold example_config)"
proof -
  have h: "0 < friction example_config" "friction example_config < 1"
    "0 < stop_threshold example_config"
    by (simp_all add: example_config_simps)
  from decay_settles [OF h, of example_axis REL_WHEEL_HI_RES] h show ?thesis
    by blast
qed

section \<open>Rescheduling of the timer (C9)\<close>

lemma timer_tick_next:
  "next_tick_ns (snd (timer_tick s wake rd cfg)) =
     (if rd = Failed then next_tick_ns s else next_tick_ns s + tick_ns cfg)"
  by (simp add: timer_tick_def Let_def split_beta)

lemma timer_tick_armed:
  "armed (snd (timer_tick s wake rd cfg)) =
     (if rd = Failed then armed s else arm (next_tick_ns s + tick_ns cfg))"
  by (simp add: timer_tick_def Let_def split_beta)

lemma rescheduled_Cons:
  "rescheduled ((wake, rd) # wakes) = (if rd = Failed then 0 else 1) + rescheduled wakes"
  by (simp add: rescheduled_def)

lemma run_timer_next:
  "next_tick_ns (run_timer s wakes cfg) = next_tick_ns s + rescheduled wakes * tick_ns cfg"
proof (induction wakes arbitrary: s)
  case Nil
  then show ?case by (simp add: rescheduled_def)
next
  case (Cons w wakes)
  obtain wake rd where w: "w = (wake, rd)" by (cases w)
  show ?case
    unfolding w by (simp add: Cons.IH timer_tick_next rescheduled_Cons algebra_simps)
qed

lemma run_timer_armed:
  "armed s = arm (next_tick_ns s) \<Longrightarrow>
   armed (run_timer s wakes cfg) = arm (next_tick_ns (run_timer s wakes cfg))"
proof (induction wakes arbitrary: s)
  case Nil
  then show ?case by simp
next
  case (Cons w wakes)
  obtain wake rd where w: "w = (wake, rd)" by (cases w)
  have "armed (snd (timer_tick s wake rd cfg)) = arm (next_tick_ns (snd (timer_tick s wake rd cfg)))"
    using Cons.prems by (simp add: timer_tick_next timer_tick_armed)
  from Cons.IH [OF this] show ?case
    unfolding w by simp
qed

lemma arm_exact: "fst (arm t) * 1000000000 + snd (arm t) = t"
  by (simp add: arm_def sdiv_mult_smod_eq)

lemma rescheduled_all:
  "(\<forall>w\<in>set wakes. snd w \<noteq> Failed) \<Longrightarrow> rescheduled wakes = int (length wakes)"
  by (simp add: rescheduled_def)

text \<open>
  C9: the first deadline is the clock reading at start plus one interval. Each wake-up
  whose read of the timer does not fail adds exactly one interval to the running
  deadline, whatever the time of the wake-up, and arms the timer at that absolute time:
  after \<open>k\<close> expiries the deadline is the first one plus \<open>k\<close> intervals, and the armed
  seconds and nanoseconds are that deadline. (A read that fails with an error other than
  \<^verbatim>\<open>EAGAIN\<close> leaves the branch before rescheduling; \<open>rescheduled\<close> does not count it.)
\<close>

theorem drift_free_rescheduling:
  "next_tick_ns (sched_init cfg now) = now + tick_ns cfg \<and>
   next_tick_ns (run_timer (sched_init cfg now) wakes cfg)
     = next_tick_ns (sched_init cfg now) + rescheduled wakes * tick_ns cfg \<and>
   ((\<forall>w\<in>set wakes. snd w \<noteq> Failed) \<longrightarrow> rescheduled wakes = int (length wakes)) \<and>
   armed (run_timer (sched_init cfg now) wakes cfg)
     = arm (next_tick_ns (run_timer (sched_init cfg now) wakes cfg)) \<and>
   fst (armed (run_timer (sched_init cfg now) wakes cfg)) * 1000000000
     + snd (armed (run_timer (sched_init cfg now) wakes cfg))
     = next_tick_ns (run_timer (sched_init cfg now) wakes cfg)"
proof -
  have i: "next_tick_ns (sched_init cfg now) = now + tick_ns cfg"
    "armed (sched_init cfg now) = arm (next_tick_ns (sched_init cfg now))"
    by (simp_all add: sched_init_def Let_def)
  have a: "armed (run_timer (sched_init cfg now) wakes cfg)
      = arm (next_tick_ns (run_timer (sched_init cfg now) wakes cfg))"
    by (rule run_timer_armed [OF i(2)])
  from i(1) a run_timer_next [of "sched_init cfg now" wakes cfg] rescheduled_all [of wakes]
  show ?thesis
    by (simp only: arm_exact) blast
qed

text \<open>
  The default interval of 4 ms from clock 0, with the second wake-up 1.5 ms late and
  the third a nanosecond late: the deadline after three expiries is 16 ms.
\<close>

theorem drift_free_rescheduling_witness:
  "next_tick_ns (sched_init default_config 0) = 4000000 \<and>
   next_tick_ns (run_timer (sched_init default_config 0)
     [(4000000, Expired), (9500000, Expired), (12000001, Again)] default_config) = 16000000 \<and>
   armed (run_timer (sched_init default_config 0)
     [(4000000, Expired), (9500000, Expired), (12000001, Again)] default_config) = (0, 16000000)"
proof -
  let ?w = "[(4000000, Expired), (9500000, Expired), (12000001, Again)]"
  have h: "\<forall>w\<in>set ?w. snd w \<noteq> Failed"
    by simp
  have t: "tick_ns default_config = 4000000"
    by (simp add: tick_ns_def default_config_simps)
  have a: "arm 16000000 = (0, 16000000)"
    by (simp add: arm_def signed_divide_int_def signed_modulo_int_def)
  from drift_free_rescheduling [of default_config 0 ?w] h
  have "next_tick_ns (sched_init default_config 0) = 4000000"
    and n: "next_tick_ns (run_timer (sched_init default_config 0) ?w default_config) = 16000000"
    and "armed (run_timer (sched_init default_config 0) ?w default_config)
      = arm (next_tick_ns (run_timer (sched_init default_config 0) ?w default_config))"
    unfolding t by simp_all
  then show ?thesis
    unfolding n a by simp
qed

section \<open>The rate (C8)\<close>

lemma length_retained: "length (retained rt) = nat (count rt)"
  by (simp add: retained_def)

lemma retained_nth:
  "0 \<le> i \<Longrightarrow> i < count rt \<Longrightarrow>
   retained rt ! nat i =
     timestamps rt ! nat ((head rt - 1 - i + RATE_RING_SIZE) smod RATE_RING_SIZE)"
  by (simp add: retained_def)

lemma retained_drop:
  assumes "0 \<le> i" and "i < count rt"
  shows "drop (nat i) (retained rt) =
     timestamps rt ! nat ((head rt - 1 - i + RATE_RING_SIZE) smod RATE_RING_SIZE)
       # drop (nat (i + 1)) (retained rt)"
proof -
  have "nat i < length (retained rt)"
    using assms by (simp add: length_retained)
  then have "drop (nat i) (retained rt) = retained rt ! nat i # drop (Suc (nat i)) (retained rt)"
    by (simp add: Cons_nth_drop_Suc)
  moreover have "Suc (nat i) = nat (i + 1)"
    using assms(1) by simp
  ultimately show ?thesis
    using assms by (simp only: retained_nth)
qed

lemma rate_scan_fold:
  assumes "0 \<le> i"
  shows "rate_scan rt c i n ol =
     (n + int (length (filter (\<lambda>t. c \<le> t) (drop (nat i) (retained rt)))),
      fold min (filter (\<lambda>t. c \<le> t) (drop (nat i) (retained rt))) ol)"
  using assms
proof (induction k \<equiv> "nat (count rt - i)" arbitrary: i n ol)
  case 0
  then have "count rt \<le> i" by simp
  moreover from this 0 have "length (retained rt) \<le> nat i"
    by (simp add: length_retained)
  ultimately show ?case
    by (simp add: rate_scan_stop)
next
  case (Suc k)
  then have lt: "i < count rt" by simp
  have k: "k = nat (count rt - (i + 1))"
    using Suc.hyps(2) by simp
  have nn: "0 \<le> i + 1"
    using Suc.prems by simp
  note ih = Suc.hyps(1) [OF k nn]
  show ?case
    by (simp add: rate_scan_step [OF lt] retained_drop [OF Suc.prems lt] ih)
qed

lemma rate_scan_window:
  "rate_scan rt (now - RATE_WINDOW_NS) 0 0 now =
     (int (length (in_window rt now)), fold min (in_window rt now) now)"
  by (simp add: rate_scan_fold in_window_def)

lemma rate_compute_eq:
  "rate_compute rt now =
     (if length (in_window rt now) < 2 then 0
      else if window_seconds rt now < 1 / 1000000 then 0
      else real (length (in_window rt now)) / window_seconds rt now)"
  by (simp add: rate_compute_def rate_scan_window window_seconds_def Let_def)

subsection \<open>The ring buffer\<close>

lemma smod_ring:
  assumes "0 \<le> x" and "x < 256"
  shows "x smod 128 = (if x < 128 then x else x - (128::int))"
proof (cases "x < 128")
  case True
  with assms show ?thesis by (simp add: smod_nonneg)
next
  case False
  have "x mod 128 = (x - 128) mod 128"
    by (simp only: minus_mod_self2)
  also have "\<dots> = x - 128"
    using False assms by (intro mod_pos_pos_trivial) simp_all
  finally have m: "x mod 128 = x - 128" .
  show ?thesis
    using False assms by (simp add: smod_nonneg m)
qed

lemma ring_index_0:
  assumes "0 \<le> h" and "h < 128"
  shows "((h + 1) smod 128 - 1 - 0 + 128) smod 128 = (h::int)"
proof -
  have a: "(h + 1) smod 128 = (if h < 127 then h + 1 else h - 127)"
    using assms by (simp add: smod_ring)
  show ?thesis
    unfolding a using assms by (simp add: smod_ring)
qed

lemma ring_index_Suc:
  assumes "0 \<le> h" and "h < 128" and "0 \<le> j" and "j < 127"
  shows "((h + 1) smod 128 - 1 - (j + 1) + 128) smod 128 = (h - 1 - j + 128) smod (128::int)"
    and "(h - 1 - j + 128) smod 128 \<noteq> h"
    and "0 \<le> (h - 1 - j + 128) smod 128"
proof -
  have a: "(h + 1) smod 128 = (if h < 127 then h + 1 else h - 127)"
    using assms by (simp add: smod_ring)
  have c: "(h - 1 - j + 128) smod 128 = (if h - 1 - j + 128 < 128 then h - 1 - j + 128 else h - 1 - j)"
    using assms by (subst smod_ring) simp_all
  show "((h + 1) smod 128 - 1 - (j + 1) + 128) smod 128 = (h - 1 - j + 128) smod 128"
  proof (cases "h < 127")
    case True
    then show ?thesis unfolding a by simp
  next
    case False
    with assms have h: "h = 127" by simp
    show ?thesis
      unfolding a h using assms(3,4) by (simp add: smod_ring)
  qed
  show "(h - 1 - j + 128) smod 128 \<noteq> h"
    unfolding c using assms by simp
  show "0 \<le> (h - 1 - j + 128) smod 128"
    unfolding c using assms by simp
qed

lemma retained_record:
  assumes len: "length (timestamps rt) = 128"
    and h: "0 \<le> head rt" "head rt < 128"
    and c: "0 \<le> count rt" "count rt \<le> 128"
  shows "retained (rate_record rt ts) = ts # take 127 (retained rt)"
proof (rule nth_equalityI)
  let ?rt = "rate_record rt ts"
  have cnt: "count ?rt = (if count rt < 128 then count rt + 1 else count rt)"
    by (simp add: rate_record_def RATE_RING_SIZE_def)
  have hd: "head ?rt = (head rt + 1) smod 128"
    by (simp add: rate_record_def RATE_RING_SIZE_def)
  have tsx: "timestamps ?rt = (timestamps rt)[nat (head rt) := ts]"
    by (simp add: rate_record_def)
  show l: "length (retained ?rt) = length (ts # take 127 (retained rt))"
    using c by (simp add: length_retained cnt) linarith
  fix i
  assume "i < length (retained ?rt)"
  then have i: "int i < count ?rt"
    by (simp add: length_retained)
  have r: "retained ?rt ! i =
      timestamps ?rt ! nat ((head ?rt - 1 - int i + 128) smod 128)"
    using retained_nth [of "int i" ?rt] i by (simp add: RATE_RING_SIZE_def)
  show "retained ?rt ! i = (ts # take 127 (retained rt)) ! i"
  proof (cases i)
    case 0
    have "(head ?rt - 1 - int i + 128) smod 128 = head rt"
      using ring_index_0 [OF h] unfolding hd 0 by simp
    then have "retained ?rt ! i = timestamps ?rt ! nat (head rt)"
      by (simp only: r)
    also have "\<dots> = ts"
      using h len by (simp add: tsx)
    finally show ?thesis
      by (simp add: 0)
  next
    case (Suc j)
    with i c have j: "int j < 127" "int j < count rt"
      by (simp_all add: cnt split: if_splits)
    have e: "(head ?rt - 1 - (int j + 1) + 128) smod 128 = (head rt - 1 - int j + 128) smod 128"
      and ne: "(head rt - 1 - int j + 128) smod 128 \<noteq> head rt"
      and nn: "0 \<le> (head rt - 1 - int j + 128) smod 128"
      unfolding hd using ring_index_Suc [OF h _ j(1)] by simp_all
    have "nat ((head rt - 1 - int j + 128) smod 128) \<noteq> nat (head rt)"
      using ne nn h(1) by simp
    then have upd: "(timestamps rt)[nat (head rt) := ts] ! nat ((head rt - 1 - int j + 128) smod 128)
        = timestamps rt ! nat ((head rt - 1 - int j + 128) smod 128)"
      by simp
    have "(head ?rt - 1 - int i + 128) smod 128 = (head rt - 1 - int j + 128) smod 128"
      using e by (simp add: Suc)
    then have "retained ?rt ! i = timestamps ?rt ! nat ((head rt - 1 - int j + 128) smod 128)"
      by (simp only: r)
    also have "\<dots> = timestamps rt ! nat ((head rt - 1 - int j + 128) smod 128)"
      by (simp only: tsx upd)
    also have "\<dots> = retained rt ! j"
      using retained_nth [of "int j" rt] j(2) by (simp add: RATE_RING_SIZE_def)
    finally show ?thesis
      using j by (simp add: Suc)
  qed
qed

lemma record_all_snoc: "record_all (tss @ [ts]) = rate_record (record_all tss) ts"
  by (simp add: record_all_def)

lemma ring_invariant:
  "length (timestamps (record_all tss)) = 128 \<and>
   head (record_all tss) = int (length tss mod 128) \<and>
   count (record_all tss) = int (min (length tss) 128) \<and>
   retained (record_all tss) = take 128 (rev tss)"
proof (induction tss rule: rev_induct)
  case Nil
  show ?case
    by (simp add: record_all_def rate_init_def retained_def)
next
  case (snoc ts tss)
  let ?rt = "record_all tss"
  from snoc have len: "length (timestamps ?rt) = 128"
    and hd: "head ?rt = int (length tss mod 128)"
    and cnt: "count ?rt = int (min (length tss) 128)"
    and ret: "retained ?rt = take 128 (rev tss)"
    by simp_all
  have h: "0 \<le> head ?rt" "head ?rt < 128"
    by (simp_all add: hd)
  have c: "0 \<le> count ?rt" "count ?rt \<le> 128"
    by (simp_all add: cnt)
  have "length (timestamps (rate_record ?rt ts)) = 128"
    by (simp add: rate_record_def len)
  moreover have "head (rate_record ?rt ts) = int (length (tss @ [ts]) mod 128)"
  proof -
    have "head (rate_record ?rt ts) = (int (length tss mod 128) + 1) mod 128"
      by (simp add: rate_record_def RATE_RING_SIZE_def hd smod_nonneg)
    also have "\<dots> = (int (length tss) mod 128 + 1) mod 128"
      by (simp add: zmod_int)
    also have "\<dots> = (int (length tss) + 1) mod 128"
      by (rule mod_add_left_eq)
    also have "\<dots> = int (Suc (length tss)) mod 128"
      by (simp add: add.commute)
    also have "\<dots> = int (Suc (length tss) mod 128)"
      by (simp add: zmod_int)
    finally show ?thesis by simp
  qed
  moreover have "count (rate_record ?rt ts) = int (min (length (tss @ [ts])) 128)"
    by (simp add: rate_record_def RATE_RING_SIZE_def cnt min_def)
  moreover have "retained (rate_record ?rt ts) = take 128 (rev (tss @ [ts]))"
  proof -
    have "take 127 (take 128 (rev tss)) = take 127 (rev tss)"
      by simp
    then show ?thesis
      by (simp add: retained_record [OF len h c] ret)
  qed
  ultimately show ?case
    by (simp only: record_all_snoc)
qed

lemma in_window_record_all:
  "in_window (record_all tss) now = filter (\<lambda>t. now - RATE_WINDOW_NS \<le> t) (take 128 (rev tss))"
  using ring_invariant [of tss] by (simp add: in_window_def)

lemma fold_min_oldest:
  assumes "xs \<noteq> []" and "\<forall>t\<in>set xs. t \<le> now"
  shows "fold min xs (now::int) = Min (set xs)"
proof -
  have "fold min xs now = Min (set (now # xs))"
    by (simp only: Min.set_eq_fold)
  also have "\<dots> = min now (Min (set xs))"
    using assms(1) by simp
  also have "\<dots> = Min (set xs)"
  proof -
    have "Min (set xs) \<in> set xs"
      using assms(1) by (intro Min_in) simp_all
    with assms(2) have "Min (set xs) \<le> now"
      by blast
    then show ?thesis
      by (rule min_absorb2)
  qed
  finally show ?thesis .
qed

lemma in_window_close:
  "in_window (record_all [1000, 1500]) 1500 = [1500, 1000]"
  by (simp add: in_window_record_all RATE_WINDOW_NS_def)

text \<open>
  C8, as the specification states it: \<^verbatim>\<open>rate_compute\<close> returns the number of time stamps
  in the trailing 300 ms window divided by the seconds from the oldest of them to
  \<open>now\<close>, and 0 when fewer than two are in the window. This fails when two or more
  time stamps are in the window and the oldest is less than a microsecond old: the
  program then returns 0 as well (\<^verbatim>\<open>if (window_sec < 1e-6) return 0.0\<close>). With time stamps
  at 1000 ns and 1500 ns and \<open>now\<close> at 1500 ns the quotient is 2 / 0.0000005 = 4000000
  and the program returns 0.
\<close>

theorem rate_formula_counterexample:
  "in_window (record_all [1000, 1500]) 1500 = [1500, 1000] \<and>
   rate_compute (record_all [1000, 1500]) 1500 = 0 \<and>
   rate_spec (record_all [1000, 1500]) 1500 = 4000000"
proof -
  have w: "window_seconds (record_all [1000, 1500]) 1500 = 1 / 2000000"
    by (simp add: window_seconds_def in_window_close)
  show ?thesis
    by (simp add: rate_compute_eq rate_spec_def in_window_close w)
qed

text \<open>
  C8, amended: \<^verbatim>\<open>rate_compute\<close> returns 0 when fewer than two retained time stamps are
  in the trailing 300 ms window of \<open>now\<close>, and also when the time from the oldest of
  them to \<open>now\<close> is below a microsecond; otherwise it returns their number divided by
  that time in seconds. The retained time stamps are the last 128 recorded, and the
  window holds those not older than \<open>now\<close> minus 300 ms. The time is measured from the
  oldest time stamp in the window when none of them is later than \<open>now\<close>. A rate of 0
  gives the scale 1 when \<open>low_rate\<close> is not negative.
\<close>

theorem rate_compute_window:
  "rate_compute rt now =
     (if length (in_window rt now) < 2 then 0
      else if window_seconds rt now < 1 / 1000000 then 0
      else real (length (in_window rt now)) / window_seconds rt now) \<and>
   in_window (record_all tss) now =
     filter (\<lambda>t. now - RATE_WINDOW_NS \<le> t) (take (nat RATE_RING_SIZE) (rev tss)) \<and>
   (in_window rt now \<noteq> [] \<and> (\<forall>t\<in>set (in_window rt now). t \<le> now) \<longrightarrow>
      window_seconds rt now = real_of_int (now - Min (set (in_window rt now))) / 1000000000) \<and>
   (0 \<le> low_rate cfg \<longrightarrow> compute_scale 0 cfg = 1)"
proof (intro conjI impI)
  show "rate_compute rt now =
     (if length (in_window rt now) < 2 then 0
      else if window_seconds rt now < 1 / 1000000 then 0
      else real (length (in_window rt now)) / window_seconds rt now)"
    by (rule rate_compute_eq)
  show "in_window (record_all tss) now =
      filter (\<lambda>t. now - RATE_WINDOW_NS \<le> t) (take (nat RATE_RING_SIZE) (rev tss))"
    by (simp add: in_window_record_all RATE_RING_SIZE_def)
  show "window_seconds rt now = real_of_int (now - Min (set (in_window rt now))) / 1000000000"
    if "in_window rt now \<noteq> [] \<and> (\<forall>t\<in>set (in_window rt now). t \<le> now)"
    using that by (simp add: window_seconds_def fold_min_oldest)
  show "compute_scale 0 cfg = 1" if "0 \<le> low_rate cfg"
    using that by (simp add: compute_scale_def)
qed

text \<open>
  Time stamps at 0, 400, 500 and 600 ms, seen at 600 ms: the first is outside the
  window, the other three span 0.2 s, and the rate is 15 events per second.
\<close>

theorem rate_compute_window_witness:
  "in_window (record_all [0, 400000000, 500000000, 600000000]) 600000000
     = [600000000, 500000000, 400000000] \<and>
   window_seconds (record_all [0, 400000000, 500000000, 600000000]) 600000000 = 1 / 5 \<and>
   rate_compute (record_all [0, 400000000, 500000000, 600000000]) 600000000 = 15 \<and>
   0 \<le> low_rate default_config \<and> compute_scale 0 default_config = 1"
proof -
  let ?rt = "record_all [0, 400000000, 500000000, 600000000]"
  note t = rate_compute_window [of ?rt 600000000 "[0, 400000000, 500000000, 600000000]" default_config]
  have iw: "in_window ?rt 600000000 = [600000000, 500000000, 400000000]"
    using t by (simp add: RATE_WINDOW_NS_def RATE_RING_SIZE_def)
  have h: "in_window ?rt 600000000 \<noteq> [] \<and> (\<forall>t\<in>set (in_window ?rt 600000000). t \<le> 600000000)"
    by (simp add: iw)
  have ws: "window_seconds ?rt 600000000 = 1 / 5"
    using t h by (simp add: iw)
  have rc: "rate_compute ?rt 600000000 = 15"
    using t by (simp add: iw ws)
  have l: "0 \<le> low_rate default_config"
    by (simp add: default_config_simps)
  from t l have "compute_scale 0 default_config = 1"
    by blast
  with iw ws rc l show ?thesis
    by simp
qed

end
